theory Spec2Isabelle
  imports Complex_Main "HOL-Library.AList" "HOL-Library.Log_Nat"
begin

section \<open>Session management (main.py, ChannelSession and SessionManager)\<close>

text \<open>
  A timezone-aware UTC \<^verbatim>\<open>datetime\<close> is an absolute instant; it is modelled by the
  number of microseconds since the epoch (the resolution of Python's datetime), so that
  the difference of two instants is a \<^verbatim>\<open>timedelta\<close> in microseconds. Money amounts
  (\<^verbatim>\<open>cost\<close>) are rationals.

  Every call reads the system: \<^verbatim>\<open>datetime.now(timezone.utc)\<close> at the start of
  \<^verbatim>\<open>get_or_create_session\<close>, \<^verbatim>\<open>str(uuid.uuid4())\<close> when a session is minted, and
  the two \<^verbatim>\<open>default_factory\<close> clock reads of the dataclass fields
  \<^verbatim>\<open>created_at\<close> and \<^verbatim>\<open>last_used\<close>. The record \<open>sys_reads\<close> holds what the system
  answers to one call.
\<close>

subsection \<open>Python floats\<close>

text \<open>
  The age of a session is computed in floats: \<^verbatim>\<open>timedelta.total_seconds()\<close> divides the
  integer number of microseconds by \<open>10\<^sup>6\<close>, and the result is divided by 60. Both
  divisions return the binary64 number nearest to the exact quotient, ties going to the
  even significand. A float is modelled by the rational it denotes; \<open>round_to_double\<close>
  rounds a rational to 53 significant bits. The exponent is not bounded in the model: the
  differences of two datetimes (below \<open>10\<^sup>1\<^sup>8\<close> microseconds) are far from
  overflow and underflow.
\<close>

definition round_half_even :: "rat \<Rightarrow> int" where
  "round_half_even q =
     (let f = \<lfloor>q\<rfloor>; r = q - of_int f
      in if r < 1 / 2 then f else if 1 / 2 < r then f + 1 else if even f then f else f + 1)"

text \<open>The binary exponent of a positive rational \<open>x\<close>: \<open>2\<^sup>k \<le> x < 2\<^sup>k\<^sup>+\<^sup>1\<close>.\<close>

definition ilog2 :: "rat \<Rightarrow> int" where
  "ilog2 x =
     (let k = bitlen (fst (quotient_of x)) - bitlen (snd (quotient_of x))
      in if 2 powi k \<le> x then k else k - 1)"

definition round_to_double :: "rat \<Rightarrow> rat" where
  "round_to_double x =
     (if x = 0 then 0
      else (let e = ilog2 \<bar>x\<bar> - 52;
                m = round_half_even (\<bar>x\<bar> / 2 powi e)
            in sgn x * of_int m * 2 powi e))"

text \<open>The rationals that are binary64 numbers (of any exponent).\<close>

definition representable :: "rat \<Rightarrow> bool" where
  "representable y = (\<exists>k j. \<bar>k\<bar> < 2 ^ 53 \<and> y = of_int k * 2 powi j)"

subsection \<open>Sessions\<close>

record ChannelSession =
  session_id :: string
  channel_id :: int
  created_at :: int
  last_used :: int
  message_count :: int
  total_cost :: rat

record SessionManager =
  sessions :: "int \<rightharpoonup> ChannelSession"
  session_timeout :: int

record sys_reads =
  clock_now :: int
  uuid4 :: string
  clock_created :: int
  clock_last_used :: int

definition SessionManager_init :: "int \<Rightarrow> SessionManager" where
  "SessionManager_init session_timeout_minutes =
     \<lparr>sessions = Map.empty, session_timeout = session_timeout_minutes\<rparr>"

text \<open>
  \<^verbatim>\<open>timedelta.total_seconds()\<close>, and the expression
  \<^verbatim>\<open>(now - session.last_used).total_seconds() / 60\<close>. The comparison of the resulting
  float with the integer \<^verbatim>\<open>session_timeout\<close> is exact in Python.
\<close>

definition total_seconds :: "int \<Rightarrow> rat" where
  "total_seconds micros = round_to_double (of_int micros / 1000000)"

definition age_minutes :: "int \<Rightarrow> ChannelSession \<Rightarrow> rat" where
  "age_minutes now session = round_to_double (total_seconds (now - last_used session) / 60)"

text \<open>The constructor call \<^verbatim>\<open>ChannelSession(session_id=..., channel_id=..., message_count=1)\<close>.\<close>

definition new_ChannelSession :: "sys_reads \<Rightarrow> int \<Rightarrow> ChannelSession" where
  "new_ChannelSession env cid =
     \<lparr>session_id = uuid4 env, channel_id = cid, created_at = clock_created env,
      last_used = clock_last_used env, message_count = 1, total_cost = 0\<rparr>"

definition get_or_create_session ::
  "sys_reads \<Rightarrow> int \<Rightarrow> SessionManager \<Rightarrow> (string \<times> bool) \<times> SessionManager" where
  "get_or_create_session env cid self =
     (let now = clock_now env;
          fresh = ((uuid4 env, False),
                   self\<lparr>sessions := (sessions self)(cid \<mapsto> new_ChannelSession env cid)\<rparr>)
      in case sessions self cid of
           None \<Rightarrow> fresh
         | Some session \<Rightarrow>
             if age_minutes now session < of_int (session_timeout self)
             then ((session_id session, True),
                   self\<lparr>sessions := (sessions self)(cid \<mapsto>
                      session\<lparr>last_used := now, message_count := message_count session + 1\<rparr>)\<rparr>)
             else fresh)"

definition reset_session :: "sys_reads \<Rightarrow> int \<Rightarrow> SessionManager \<Rightarrow> string \<times> SessionManager" where
  "reset_session env cid self =
     (uuid4 env, self\<lparr>sessions := (sessions self)(cid \<mapsto> new_ChannelSession env cid)\<rparr>)"

definition get_session_info :: "int \<Rightarrow> SessionManager \<Rightarrow> ChannelSession option" where
  "get_session_info cid self = sessions self cid"

definition update_cost :: "int \<Rightarrow> rat \<Rightarrow> SessionManager \<Rightarrow> SessionManager" where
  "update_cost cid c self =
     (case sessions self cid of
        None \<Rightarrow> self
      | Some session \<Rightarrow>
          self\<lparr>sessions := (sessions self)(cid \<mapsto> session\<lparr>total_cost := total_cost session + c\<rparr>)\<rparr>)"

text \<open>
  A run of the manager: any sequence of the four calls, each with the answers of the
  system to it. \<open>step\<close> returns the new manager and the session token the call handed
  out, if it hands one out.
\<close>

datatype sm_call =
    GetOrCreate sys_reads int
  | Reset sys_reads int
  | UpdateCost int rat
  | GetInfo int

fun step :: "sm_call \<Rightarrow> SessionManager \<Rightarrow> SessionManager \<times> string list" where
  "step (GetOrCreate env cid) m = (case get_or_create_session env cid m of ((tok, r), m') \<Rightarrow> (m', [tok]))"
| "step (Reset env cid) m = (case reset_session env cid m of (tok, m') \<Rightarrow> (m', [tok]))"
| "step (UpdateCost cid c) m = (update_cost cid c m, [])"
| "step (GetInfo cid) m = (m, [])"

fun run :: "sm_call list \<Rightarrow> SessionManager \<times> string list \<Rightarrow> SessionManager \<times> string list" where
  "run [] st = st"
| "run (c # cs) (m, issued) = (case step c m of (m', toks) \<Rightarrow> run cs (m', issued @ toks))"



definition sm_inv :: "SessionManager \<Rightarrow> bool" where
  "sm_inv m = (\<forall>k s. sessions m k = Some s \<longrightarrow> channel_id s = k \<and> 1 \<le> message_count s)"

definition token_and_count :: "ChannelSession \<Rightarrow> string \<times> int" where
  "token_and_count s = (session_id s, message_count s)"

subsection \<open>A concrete run of the manager\<close>

text \<open>
  Channel 5 is reset at time 0, used again 10 microseconds later, and then used either
  29 minutes or exactly 30 minutes after that second use (timeout: 30 minutes).
\<close>

definition ex_env0 :: sys_reads where
  "ex_env0 = \<lparr>clock_now = 0, uuid4 = ''z'', clock_created = 1, clock_last_used = 2\<rparr>"

definition ex_env1 :: sys_reads where
  "ex_env1 = \<lparr>clock_now = 10, uuid4 = ''a'', clock_created = 11, clock_last_used = 12\<rparr>"

definition ex_env2 :: sys_reads where
  "ex_env2 = \<lparr>clock_now = 1740000010, uuid4 = ''b'', clock_created = 1740000011,
              clock_last_used = 1740000012\<rparr>"

definition ex_env3 :: sys_reads where
  "ex_env3 = \<lparr>clock_now = 1800000010, uuid4 = ''c'', clock_created = 1800000011,
              clock_last_used = 1800000012\<rparr>"



definition ex_calls :: "sm_call list" where
  "ex_calls = [GetOrCreate ex_env0 5, UpdateCost 5 (1 / 4), GetInfo 5, GetOrCreate ex_env1 5,
               Reset ex_env2 7, UpdateCost 9 1, GetOrCreate ex_env3 5]"

section \<open>The CLI executor (main.py, ClaudeCodeExecutor; config.py, Config)\<close>

subsection \<open>Configuration\<close>

text \<open>
  The fields of \<^verbatim>\<open>Config\<close> the executor and the incident workflow read. The Discord
  token, the channel table and the provisioning names are used by the chat transport only.
\<close>

record Config =
  environment :: string
  codebase_path :: string
  auto_respond :: bool
  auto_remediate :: bool

text \<open>\<^verbatim>\<open>str.lower()\<close> on the ASCII letters (the strings of the model are byte strings).\<close>

definition lower_char :: "char \<Rightarrow> char" where
  "lower_char c =
     (case map_of (zip ''ABCDEFGHIJKLMNOPQRSTUVWXYZ'' ''abcdefghijklmnopqrstuvwxyz'') c of
        None \<Rightarrow> c
      | Some l \<Rightarrow> l)"

definition lower :: "string \<Rightarrow> string" where
  "lower s = map lower_char s"

definition allow_edit_tools :: "Config \<Rightarrow> bool" where
  "allow_edit_tools cfg = (lower (environment cfg) = ''dev'')"

definition get_disallowed_tools :: "Config \<Rightarrow> string list" where
  "get_disallowed_tools cfg =
     (let always_disallowed = [''AskUserQuestion'']
      in if allow_edit_tools cfg then always_disallowed
         else always_disallowed @ [''Write'', ''Edit'', ''MultiEdit''])"

subsection \<open>The arguments of one call and the command line built from them\<close>

text \<open>
  The prompts are long fixed templates; a prompt is modelled by the template it comes from
  and the values interpolated into it (with the truncation the source applies).
\<close>

record alert_data =
  title :: string
  level :: string
  description :: string
  alert_fields :: "(string \<times> string) list"
  channel :: string
  timestamp :: string

datatype prompt =
    InvestigatePrompt alert_data
  | DiagnosticsPrompt alert_data string
  | RemediationPrompt alert_data string "string list"
  | ConversationPrompt string string bool
  | AskOraclePrompt string
  | TaskPrompt string
  | RemediateAnalysisPrompt string
  | RemediateExecutePrompt string

record exec_args =
  prompt :: prompt
  allowed_tools :: "string list option"
  disallowed_tools :: "string list option"
  max_budget_usd :: rat
  timeout :: int
  skip_permissions :: bool
  arg_session_id :: "string option"
  resume_session :: bool

text \<open>The defaults of the keyword arguments of \<^verbatim>\<open>execute\<close>.\<close>

definition default_args :: "prompt \<Rightarrow> exec_args" where
  "default_args p =
     \<lparr>prompt = p, allowed_tools = None, disallowed_tools = None, max_budget_usd = 1,
      timeout = 450, skip_permissions = False, arg_session_id = None, resume_session = False\<rparr>"

text \<open>Python truthiness of an optional string and of an optional list.\<close>

definition truthy :: "'a list option \<Rightarrow> bool" where
  "truthy x = (case x of None \<Rightarrow> False | Some xs \<Rightarrow> xs \<noteq> [])"

fun join_comma :: "string list \<Rightarrow> string" where
  "join_comma [] = []"
| "join_comma [x] = x"
| "join_comma (x # y # ys) = x @ '','' @ join_comma (y # ys)"

text \<open>
  An element of the argument vector: a literal string, the rendering of the budget
  (\<^verbatim>\<open>str(max_budget_usd)\<close>), the name of the temporary file, or the prompt text.
\<close>

datatype cmd_arg = S string | Budget rat | TempFile string | PromptText prompt

definition build_cmd :: "exec_args \<Rightarrow> string option \<Rightarrow> cmd_arg list" where
  "build_cmd a system_prompt_file =
     [S ''claude'', S ''--print'', S ''--output-format'', S ''json'']
     @ (if resume_session a \<and> truthy (arg_session_id a) then [S ''-r''] else [])
     @ (if truthy (arg_session_id a) then [S ''--session-id'', S (the (arg_session_id a))] else [])
     @ (if skip_permissions a then [S ''--dangerously-skip-permissions''] else [])
     @ [S ''--max-turns'', S ''15'']
     @ [S ''--model'', S ''claude-opus-4-5-20250514'']
     @ (if truthy (allowed_tools a)
        then [S ''--allowedTools'', S (join_comma (the (allowed_tools a)))] else [])
     @ (if truthy (disallowed_tools a)
        then [S ''--disallowedTools'', S (join_comma (the (disallowed_tools a)))] else [])
     @ [S ''--max-budget-usd'', Budget (max_budget_usd a)]
     @ (case system_prompt_file of None \<Rightarrow> [] | Some name \<Rightarrow> [S ''--system-prompt'', TempFile name])
     @ [PromptText (prompt a)]"

subsection \<open>Results\<close>

text \<open>
  The standard output of the CLI is expected to be one JSON object with the optional fields
  \<^verbatim>\<open>result\<close>, \<^verbatim>\<open>cost_usd\<close>, \<^verbatim>\<open>session_id\<close> and \<^verbatim>\<open>num_turns\<close>.
  \<^verbatim>\<open>json.loads\<close> is a library function: it is a parameter of the model, answering with a
  decode error, with an object, or with a value of another Python type (named by its type
  name), on which \<^verbatim>\<open>result.get\<close> raises \<^verbatim>\<open>AttributeError\<close>. A field that is
  present is taken to have its documented type: a string for \<^verbatim>\<open>result\<close> and
  \<^verbatim>\<open>session_id\<close>, a number for \<^verbatim>\<open>cost_usd\<close> and \<^verbatim>\<open>num_turns\<close>; objects with a
  \<^verbatim>\<open>null\<close> or otherwise ill-typed field are outside the model.
\<close>

record payload =
  p_result :: "string option"
  p_cost_usd :: "rat option"
  p_session_id :: "string option"
  p_num_turns :: "int option"

datatype json_result = JSONDecodeError | JObject payload | JNonObject string

text \<open>
  The dictionary \<^verbatim>\<open>execute\<close> returns has different keys on different paths; a key that
  is absent is \<open>None\<close>. The key \<^verbatim>\<open>error\<close> can be present with the value \<^verbatim>\<open>None\<close>:
  that is \<open>Some None\<close>.
\<close>

record exec_result =
  success :: bool
  output_text :: string
  cost :: "rat option"
  res_session_id :: "string option"
  num_turns :: "int option"
  raw :: "payload option"
  error :: "string option option"

text \<open>\<^verbatim>\<open>result.get('cost', 0)\<close> and \<^verbatim>\<open>result.get('error', 'Unknown error')\<close> at the callers.\<close>

definition get_cost :: "exec_result \<Rightarrow> rat" where
  "get_cost r = (case cost r of None \<Rightarrow> 0 | Some c \<Rightarrow> c)"

definition get_error :: "exec_result \<Rightarrow> string option" where
  "get_error r = (case error r of None \<Rightarrow> Some ''Unknown error'' | Some e \<Rightarrow> e)"

text \<open>The claim of the specification: a failed result names its cause.\<close>

definition error_populated :: "exec_result \<Rightarrow> bool" where
  "error_populated r = (case error r of Some (Some msg) \<Rightarrow> msg \<noteq> [] | _ \<Rightarrow> False)"

subsection \<open>Decimal rendering of integers in the messages\<close>

definition digit_char :: "nat \<Rightarrow> char" where
  "digit_char n = ''0123456789'' ! n"

function str_nat :: "nat \<Rightarrow> string" where
  "str_nat n = (if n < 10 then [digit_char n] else str_nat (n div 10) @ [digit_char (n mod 10)])"
  by pat_completeness auto
termination
  by (relation "measure id") auto

definition str_int :: "int \<Rightarrow> string" where
  "str_int i = (if i < 0 then ''-'' @ str_nat (nat (- i)) else str_nat (nat i))"

subsection \<open>One call of execute\<close>

datatype exn = TimeoutError | FileNotFoundError | OtherException string

text \<open>
  What the system answers during one call: the creation of the temporary file
  (\<^verbatim>\<open>tempfile.NamedTemporaryFile(delete=False)\<close>) either raises or yields a file of some
  name, whose write and close then succeed or not; \<^verbatim>\<open>create_subprocess_exec\<close> either
  raises, or the child starts and \<^verbatim>\<open>wait_for(process.communicate(), timeout)\<close> either
  raises \<^verbatim>\<open>asyncio.TimeoutError\<close> (the child has not finished in time) or returns the exit
  code and the decoded output streams; \<^verbatim>\<open>os.unlink\<close> succeeds or raises (the source swallows
  that exception).
\<close>

datatype tmp_outcome = TmpRaises exn | TmpCreated string bool

datatype proc_run = SpawnRaises exn | WaitTimesOut | Completes int string string

record exec_env =
  tmp :: tmp_outcome
  proc :: proc_run
  unlink_ok :: bool
  json_loads :: "string \<Rightarrow> json_result"

text \<open>
  What the call leaves behind: the temporary files that exist, the state of the child
  process, and the argument vector it was started with. The source has a single operation
  on a started child, \<^verbatim>\<open>communicate()\<close>; it calls neither \<^verbatim>\<open>kill()\<close> nor
  \<^verbatim>\<open>terminate()\<close>, so a child that has not finished when the wait expires stays as it is.
\<close>

datatype proc_status = NotSpawned | Running | Exited int

record effects =
  files :: "string set"
  process :: proc_status
  spawned :: "cmd_arg list option"

definition failure :: "string \<Rightarrow> exec_result" where
  "failure msg =
     \<lparr>success = False, output_text = [], cost = None, res_session_id = None, num_turns = None,
      raw = None, error = Some (Some msg)\<rparr>"

text \<open>The three \<^verbatim>\<open>except\<close> clauses at the end of \<^verbatim>\<open>execute\<close>.\<close>

fun handle_exn :: "int \<Rightarrow> exn \<Rightarrow> exec_result" where
  "handle_exn n TimeoutError = failure (''Claude CLI timed out after '' @ str_int n @ '' seconds'')"
| "handle_exn n FileNotFoundError = failure ''Claude CLI not found. Ensure it is installed and in PATH.''"
| "handle_exn n (OtherException msg) = failure msg"

definition attribute_error :: "string \<Rightarrow> exn" where
  "attribute_error ty =
     OtherException ([CHR 0x27] @ ty @ [CHR 0x27] @ '' object has no attribute ''
                     @ [CHR 0x27] @ ''get'' @ [CHR 0x27])"

text \<open>The part of \<^verbatim>\<open>execute\<close> after the child has finished: parsing its output.\<close>

definition parse_output :: "(string \<Rightarrow> json_result) \<Rightarrow> int \<Rightarrow> int \<Rightarrow> string \<Rightarrow> string \<Rightarrow> exec_result" where
  "parse_output loads n returncode stdout_text stderr_text =
     (case loads stdout_text of
        JObject result \<Rightarrow>
          \<lparr>success = (returncode = 0),
           output_text = (case p_result result of None \<Rightarrow> stdout_text | Some r \<Rightarrow> r),
           cost = Some (case p_cost_usd result of None \<Rightarrow> 0 | Some c \<Rightarrow> c),
           res_session_id = Some (case p_session_id result of None \<Rightarrow> [] | Some s \<Rightarrow> s),
           num_turns = Some (case p_num_turns result of None \<Rightarrow> 0 | Some t \<Rightarrow> t),
           raw = Some result,
           error = None\<rparr>
      | JNonObject ty \<Rightarrow> handle_exn n (attribute_error ty)
      | JSONDecodeError \<Rightarrow>
          (let error_msg = (if stderr_text \<noteq> [] then Some stderr_text else None);
               error_msg =
                 (if returncode \<noteq> 0 \<and> error_msg = None
                  then Some (if stdout_text \<noteq> []
                             then ''Command failed (exit code '' @ str_int returncode
                                  @ ''). Output: '' @ take 500 stdout_text
                             else ''Command failed with exit code '' @ str_int returncode)
                  else error_msg)
           in \<lparr>success = (returncode = 0), output_text = stdout_text, cost = Some 0,
               res_session_id = Some [], num_turns = None, raw = None,
               error = Some error_msg\<rparr>))"

definition execute :: "exec_env \<Rightarrow> string set \<Rightarrow> exec_args \<Rightarrow> exec_result \<times> effects" where
  "execute env fs a =
     (case tmp env of
        TmpRaises e \<Rightarrow>
          (handle_exn (timeout a) e, \<lparr>files = fs, process = NotSpawned, spawned = None\<rparr>)
      | TmpCreated name written \<Rightarrow>
          (let fs1 = insert name fs;
               cmd = build_cmd a (if written then Some name else None)
           in case proc env of
                SpawnRaises e \<Rightarrow>
                  (handle_exn (timeout a) e,
                   \<lparr>files = fs1, process = NotSpawned, spawned = None\<rparr>)
              | WaitTimesOut \<Rightarrow>
                  (handle_exn (timeout a) TimeoutError,
                   \<lparr>files = fs1, process = Running, spawned = Some cmd\<rparr>)
              | Completes returncode stdout_text stderr_text \<Rightarrow>
                  (parse_output (json_loads env) (timeout a) returncode stdout_text stderr_text,
                   \<lparr>files = (if unlink_ok env then fs1 - {name} else fs1),
                    process = Exited returncode, spawned = Some cmd\<rparr>)))"

subsection \<open>The call sites of execute\<close>

definition investigate_alert :: "Config \<Rightarrow> alert_data \<Rightarrow> exec_args" where
  "investigate_alert cfg a =
     (default_args (InvestigatePrompt a))
       \<lparr>disallowed_tools := Some (get_disallowed_tools cfg), timeout := 180\<rparr>"

definition run_diagnostics :: "Config \<Rightarrow> alert_data \<Rightarrow> string \<Rightarrow> exec_args" where
  "run_diagnostics cfg a analysis =
     (default_args (DiagnosticsPrompt a (take 3000 analysis)))
       \<lparr>allowed_tools := Some [''Read'', ''Glob'', ''Grep'', ''Bash''],
        disallowed_tools := Some (get_disallowed_tools cfg), timeout := 120\<rparr>"

definition attempt_remediation :: "Config \<Rightarrow> alert_data \<Rightarrow> string \<Rightarrow> string list \<Rightarrow> exec_args" where
  "attempt_remediation cfg a diagnostics approved_actions =
     (default_args (RemediationPrompt a (take 3000 diagnostics) approved_actions))
       \<lparr>allowed_tools := Some [''Read'', ''Glob'', ''Grep'', ''Bash''],
        disallowed_tools := Some (get_disallowed_tools cfg), timeout := 120\<rparr>"

definition conversation_call :: "Config \<Rightarrow> string \<Rightarrow> string \<Rightarrow> string \<Rightarrow> bool \<Rightarrow> exec_args" where
  "conversation_call cfg author content sid is_resume =
     (default_args (ConversationPrompt author content (allow_edit_tools cfg)))
       \<lparr>disallowed_tools := Some (get_disallowed_tools cfg), timeout := 180,
        arg_session_id := Some sid, resume_session := is_resume\<rparr>"

definition ask_oracle_call :: "Config \<Rightarrow> string \<Rightarrow> exec_args" where
  "ask_oracle_call cfg question =
     (default_args (AskOraclePrompt question))
       \<lparr>disallowed_tools := Some (get_disallowed_tools cfg), timeout := 180\<rparr>"

definition run_task_call :: "Config \<Rightarrow> string \<Rightarrow> exec_args" where
  "run_task_call cfg task =
     (default_args (TaskPrompt task))
       \<lparr>disallowed_tools := Some (get_disallowed_tools cfg), timeout := 600,
        skip_permissions := True\<rparr>"

definition remediate_analysis_call :: "string \<Rightarrow> exec_args" where
  "remediate_analysis_call action =
     (default_args (RemediateAnalysisPrompt action))
       \<lparr>disallowed_tools := Some [''Write'', ''Edit'', ''MultiEdit''], max_budget_usd := 5 / 100,
        timeout := 120, skip_permissions := True\<rparr>"

definition remediate_execute_call :: "Config \<Rightarrow> string \<Rightarrow> exec_args" where
  "remediate_execute_call cfg action =
     (default_args (RemediateExecutePrompt action))
       \<lparr>disallowed_tools := Some (get_disallowed_tools cfg), max_budget_usd := 10 / 100,
        timeout := 300, skip_permissions := True\<rparr>"

text \<open>The interactive-question capability is denied by a call.\<close>

definition denies_questions :: "exec_args \<Rightarrow> bool" where
  "denies_questions a =
     (case disallowed_tools a of None \<Rightarrow> False | Some ts \<Rightarrow> ''AskUserQuestion'' \<in> set ts)"

text \<open>An exception whose \<^verbatim>\<open>str(e)\<close> is not empty.\<close>

definition exn_has_message :: "exn \<Rightarrow> bool" where
  "exn_has_message e = (case e of OtherException msg \<Rightarrow> msg \<noteq> [] | _ \<Rightarrow> True)"

subsection \<open>Concrete calls of execute\<close>

text \<open>
  A production configuration, a CLI that prints a JSON object and exits with code 1 (with
  a diagnostic on standard error), and a CLI that does not finish before the wait expires.
\<close>

definition ex_cfg :: Config where
  "ex_cfg = \<lparr>environment = ''prod'', codebase_path = ''/app/codebase'', auto_respond = True,
             auto_remediate = False\<rparr>"

definition ex_stdout :: string where
  \<open>ex_stdout = ''{"result": "budget exceeded", "cost_usd": 0.02}''\<close>

definition ex_payload :: payload where
  "ex_payload = \<lparr>p_result = Some ''budget exceeded'', p_cost_usd = Some (2 / 100),
                 p_session_id = None, p_num_turns = None\<rparr>"

definition ex_loads :: "string \<Rightarrow> json_result" where
  "ex_loads s = (if s = ex_stdout then JObject ex_payload else JSONDecodeError)"

definition ex_env_json_fail :: exec_env where
  "ex_env_json_fail =
     \<lparr>tmp = TmpCreated ''/tmp/tmpab12.md'' True,
      proc = Completes 1 ex_stdout ''Error: budget exceeded'',
      unlink_ok = True, json_loads = ex_loads\<rparr>"

definition ex_env_timeout :: exec_env where
  "ex_env_timeout =
     \<lparr>tmp = TmpCreated ''/tmp/tmpab12.md'' True, proc = WaitTimesOut,
      unlink_ok = True, json_loads = ex_loads\<rparr>"

definition ex_env_not_found :: exec_env where
  "ex_env_not_found =
     \<lparr>tmp = TmpCreated ''/tmp/tmpab12.md'' True, proc = SpawnRaises FileNotFoundError,
      unlink_ok = True, json_loads = ex_loads\<rparr>"

definition ex_env_plain_ok :: exec_env where
  "ex_env_plain_ok =
     \<lparr>tmp = TmpCreated ''/tmp/tmpab12.md'' True, proc = Completes 0 ''not json'' [],
      unlink_ok = True, json_loads = ex_loads\<rparr>"

section \<open>The approval view and the remediate command (main.py, ApprovalView, remediate_command)\<close>

text \<open>
  \<^verbatim>\<open>ApprovalView\<close> extends \<^verbatim>\<open>discord.ui.View\<close>. The fields \<^verbatim>\<open>approved\<close> and
  \<^verbatim>\<open>responder\<close> are its own; \<open>finished\<close> is the state of the library's view
  (\<^verbatim>\<open>is_finished()\<close>): it is set by \<^verbatim>\<open>stop()\<close> and by the expiry of the timeout, and
  \<^verbatim>\<open>wait()\<close> returns once it is set. A user is identified by name.
\<close>

record ApprovalView =
  action_description :: string
  command_to_run :: string
  approved :: "bool option"
  responder :: "string option"
  finished :: bool

definition ApprovalView_init :: "string \<Rightarrow> string \<Rightarrow> ApprovalView" where
  "ApprovalView_init desc cmd =
     \<lparr>action_description = desc, command_to_run = cmd, approved = None, responder = None,
      finished = False\<rparr>"

definition approve_button :: "string \<Rightarrow> ApprovalView \<Rightarrow> ApprovalView" where
  "approve_button user v = v\<lparr>approved := Some True, responder := Some user, finished := True\<rparr>"

definition deny_button :: "string \<Rightarrow> ApprovalView \<Rightarrow> ApprovalView" where
  "deny_button user v = v\<lparr>approved := Some False, responder := Some user, finished := True\<rparr>"

definition details_button :: "string \<Rightarrow> ApprovalView \<Rightarrow> ApprovalView" where
  "details_button user v = v"

definition on_timeout :: "ApprovalView \<Rightarrow> ApprovalView" where
  "on_timeout v = v\<lparr>approved := Some False\<rparr>"

text \<open>
  The library delivers a click to the handler of its button while the view is not finished,
  and ignores it afterwards. When the deadline elapses on a view that is not finished, the
  library first marks it finished (which wakes the task blocked in \<^verbatim>\<open>wait()\<close>) and then
  runs \<^verbatim>\<open>on_timeout\<close> as a task of its own.
\<close>

datatype view_event = ClickApprove string | ClickDeny string | ClickDetails string | DeadlineElapses

definition expire :: "ApprovalView \<Rightarrow> ApprovalView" where
  "expire v = v\<lparr>finished := True\<rparr>"

fun dispatch :: "ApprovalView \<Rightarrow> view_event \<Rightarrow> ApprovalView" where
  "dispatch v (ClickApprove u) = (if finished v then v else approve_button u v)"
| "dispatch v (ClickDeny u) = (if finished v then v else deny_button u v)"
| "dispatch v (ClickDetails u) = (if finished v then v else details_button u v)"
| "dispatch v DeadlineElapses = (if finished v then v else on_timeout (expire v))"

definition deliver :: "view_event list \<Rightarrow> ApprovalView \<Rightarrow> ApprovalView" where
  "deliver es v = foldl dispatch v es"

fun is_decision :: "view_event \<Rightarrow> bool" where
  "is_decision (ClickApprove u) = True"
| "is_decision (ClickDeny u) = True"
| "is_decision (ClickDetails u) = False"
| "is_decision DeadlineElapses = False"

text \<open>
  What \<^verbatim>\<open>remediate_command\<close> reads after \<^verbatim>\<open>await view.wait()\<close>, when the clicks
  \<open>clicks\<close> arrive before the deadline. If a click finished the view, that is what it
  reads. Otherwise the deadline wakes it, and it runs either before the task of
  \<^verbatim>\<open>on_timeout\<close> or after it: \<open>handler_first\<close> says which.
\<close>

definition view_at_wakeup :: "bool \<Rightarrow> view_event list \<Rightarrow> ApprovalView \<Rightarrow> ApprovalView" where
  "view_at_wakeup handler_first clicks v0 =
     (let v = deliver clicks v0
      in if finished v then v
         else if handler_first then on_timeout (expire v) else expire v)"

datatype remediate_end =
    AnalysisFailed
  | ApprovalTimedOut
  | UserDenied
  | NoApprover
  | Remediated string exec_result

record remediate_run =
  r_calls :: "exec_args list"
  r_total_cost_usd :: rat
  r_end :: remediate_end

text \<open>
  \<^verbatim>\<open>remediate_command\<close>. \<open>exec\<close> is what \<^verbatim>\<open>bot.claude_executor.execute\<close> returns for
  given arguments, \<open>total0\<close> is \<^verbatim>\<open>bot.total_cost_usd\<close> before the command, \<open>invoker\<close> is
  \<^verbatim>\<open>interaction.user\<close>. The result lists the calls of \<^verbatim>\<open>execute\<close> made, in order.
  \<open>NoApprover\<close> is the \<^verbatim>\<open>AttributeError\<close> of \<^verbatim>\<open>approver.mention\<close> on \<^verbatim>\<open>None\<close>.
\<close>

definition remediate_command ::
  "(exec_args \<Rightarrow> exec_result) \<Rightarrow> Config \<Rightarrow> rat \<Rightarrow> string \<Rightarrow> string \<Rightarrow> bool \<Rightarrow>
   bool \<Rightarrow> view_event list \<Rightarrow> remediate_run" where
  "remediate_command exec cfg total0 invoker action skip_approval handler_first clicks =
     (let analysis_result = exec (remediate_analysis_call action);
          total1 = total0 + get_cost analysis_result;
          calls1 = [remediate_analysis_call action]
      in if \<not> success analysis_result
         then \<lparr>r_calls = calls1, r_total_cost_usd = total1, r_end = AnalysisFailed\<rparr>
         else
           (let analysis_output = output_text analysis_result;
                decision =
                  (if skip_approval then Some (True, Some invoker)
                   else (let view = view_at_wakeup handler_first clicks
                                      (ApprovalView_init action (take 1900 analysis_output))
                         in case approved view of
                              None \<Rightarrow> None
                            | Some b \<Rightarrow> Some (b, responder view)))
            in case decision of
                 None \<Rightarrow> \<lparr>r_calls = calls1, r_total_cost_usd = total1, r_end = ApprovalTimedOut\<rparr>
               | Some (is_approved, approver) \<Rightarrow>
                   if \<not> is_approved
                   then \<lparr>r_calls = calls1, r_total_cost_usd = total1, r_end = UserDenied\<rparr>
                   else (case approver of
                           None \<Rightarrow> \<lparr>r_calls = calls1, r_total_cost_usd = total1, r_end = NoApprover\<rparr>
                         | Some u \<Rightarrow>
                             (let exec_result = exec (remediate_execute_call cfg action)
                              in \<lparr>r_calls = calls1 @ [remediate_execute_call cfg action],
                                  r_total_cost_usd = total1 + get_cost exec_result,
                                  r_end = Remediated u exec_result\<rparr>))))"

fun is_remediated :: "remediate_end \<Rightarrow> bool" where
  "is_remediated (Remediated u r) = True"
| "is_remediated AnalysisFailed = False"
| "is_remediated ApprovalTimedOut = False"
| "is_remediated UserDenied = False"
| "is_remediated NoApprover = False"

subsection \<open>A concrete approval request\<close>

definition ex_analysis_ok :: exec_result where
  "ex_analysis_ok =
     \<lparr>success = True, output_text = ''ssh hephaestus-dev docker compose up -d'',
      cost = Some (3 / 100), res_session_id = Some [], num_turns = Some 2, raw = None,
      error = None\<rparr>"

definition ex_exec :: "exec_args \<Rightarrow> exec_result" where
  "ex_exec a = ex_analysis_ok"

definition ex_clicks :: "view_event list" where
  "ex_clicks = [ClickDetails ''alice'', ClickDetails ''bob'']"

section \<open>Incidents (main.py, OracleAgent.handle_alert and OracleAgent._investigate_incident)\<close>

subsection \<open>Incident identifiers\<close>

text \<open>
  \<^verbatim>\<open>datetime.now(timezone.utc)\<close> as the fields of the datetime object, which
  \<^verbatim>\<open>strftime('%Y%m%d%H%M%S')\<close> prints zero-padded: four digits of the year, two digits of
  each of month, day, hour, minute and second. The microsecond is not printed.
\<close>

record datetime =
  dt_year :: nat
  dt_month :: nat
  dt_day :: nat
  dt_hour :: nat
  dt_minute :: nat
  dt_second :: nat
  dt_microsecond :: nat

definition valid_datetime :: "datetime \<Rightarrow> bool" where
  "valid_datetime d =
     (1000 \<le> dt_year d \<and> dt_year d \<le> 9999 \<and> 1 \<le> dt_month d \<and> dt_month d \<le> 12 \<and>
      1 \<le> dt_day d \<and> dt_day d \<le> 31 \<and> dt_hour d < 24 \<and> dt_minute d < 60 \<and>
      dt_second d < 60 \<and> dt_microsecond d < 1000000)"

definition pad2 :: "nat \<Rightarrow> string" where
  "pad2 n = [digit_char (n div 10), digit_char (n mod 10)]"

definition pad4 :: "nat \<Rightarrow> string" where
  "pad4 n = [digit_char (n div 1000), digit_char (n div 100 mod 10),
             digit_char (n div 10 mod 10), digit_char (n mod 10)]"

definition strftime_YmdHMS :: "datetime \<Rightarrow> string" where
  "strftime_YmdHMS d =
     pad4 (dt_year d) @ pad2 (dt_month d) @ pad2 (dt_day d) @ pad2 (dt_hour d)
     @ pad2 (dt_minute d) @ pad2 (dt_second d)"

definition incident_id_at :: "datetime \<Rightarrow> string" where
  "incident_id_at now = ''INC-'' @ strftime_YmdHMS now"

text \<open>The second a datetime falls into: all its fields but the microsecond.\<close>

definition same_second :: "datetime \<Rightarrow> datetime \<Rightarrow> bool" where
  "same_second d e =
     (dt_year d = dt_year e \<and> dt_month d = dt_month e \<and> dt_day d = dt_day e \<and>
      dt_hour d = dt_hour e \<and> dt_minute d = dt_minute e \<and> dt_second d = dt_second e)"

subsection \<open>The agent and its incident table\<close>

text \<open>
  An incident is the dictionary stored in \<^verbatim>\<open>active_incidents\<close> (the Discord message and
  thread handles are left out). The table is a Python dict: an association list in
  insertion order, where storing under an existing key replaces the value in place.
\<close>

record incident =
  inc_id :: string
  alert :: alert_data
  status :: string
  started_at :: datetime
  cost_usd :: rat

record OracleAgent =
  config :: Config
  active_incidents :: "(string \<times> incident) list"
  auto_respond_now :: bool
  total_cost_usd :: rat

text \<open>
  \<^verbatim>\<open>handle_alert\<close>, for an alert that has been parsed: \<open>now\<close> is the clock read that
  names the incident, \<open>now'\<close> the one stored as \<^verbatim>\<open>started_at\<close>. It returns the agent,
  the incident id, and whether the investigation task is created
  (\<^verbatim>\<open>self.auto_respond\<close>).
\<close>

definition handle_alert ::
  "datetime \<Rightarrow> datetime \<Rightarrow> alert_data \<Rightarrow> OracleAgent \<Rightarrow> OracleAgent \<times> string \<times> bool" where
  "handle_alert now now' a agent =
     (let incident_id = incident_id_at now;
          entry = \<lparr>inc_id = incident_id, alert = a, status = ''investigating'',
                   started_at = now', cost_usd = 0\<rparr>
      in (agent\<lparr>active_incidents := AList.update incident_id entry (active_incidents agent)\<rparr>,
          incident_id, auto_respond_now agent))"

subsection \<open>The investigation of one incident\<close>

text \<open>
  The investigation sends messages to the incident's thread and calls the executor.
  A send can raise (the chat transport is outside the program): \<open>raises p\<close> says whether
  the send at the place \<open>p\<close> of the source does. \<^verbatim>\<open>execute\<close> itself catches every
  exception. The trace records the sends that succeeded and the calls of \<^verbatim>\<open>execute\<close>.
\<close>

datatype send_point =
    SendStep1 | SendAnalysis | SendInvestigationIssue
  | SendStep2 | SendDiagnostics | SendDiagnosticsIssue
  | SendStep3 | SendRemediation | SendRemediationIssue | SendManualAction
  | SendSummary | SendInvestigationError

datatype event = Sent send_point | Invoked exec_args

record inv_state =
  inc :: incident
  bot_total :: rat
  trace :: "event list"

text \<open>
  How a piece of the body ends: it falls through to the next statement, it executes
  \<^verbatim>\<open>return\<close>, or it raises; each with the state reached.
\<close>

datatype flow = Continue inv_state | Return inv_state | Raise inv_state

fun and_then :: "flow \<Rightarrow> (inv_state \<Rightarrow> flow) \<Rightarrow> flow" where
  "and_then (Continue s) f = f s"
| "and_then (Return s) f = Return s"
| "and_then (Raise s) f = Raise s"

definition send :: "(send_point \<Rightarrow> bool) \<Rightarrow> send_point \<Rightarrow> inv_state \<Rightarrow> flow" where
  "send raises p s = (if raises p then Raise s else Continue (s\<lparr>trace := trace s @ [Sent p]\<rparr>))"

definition invoke :: "exec_args \<Rightarrow> inv_state \<Rightarrow> inv_state" where
  "invoke a s = s\<lparr>trace := trace s @ [Invoked a]\<rparr>"

definition add_cost :: "rat \<Rightarrow> inv_state \<Rightarrow> inv_state" where
  "add_cost c s = s\<lparr>inc := (inc s)\<lparr>cost_usd := cost_usd (inc s) + c\<rparr>\<rparr>"

definition set_status :: "string \<Rightarrow> inv_state \<Rightarrow> inv_state" where
  "set_status st s = s\<lparr>inc := (inc s)\<lparr>status := st\<rparr>\<rparr>"

text \<open>Step 3 (lines 1041-1082): remediation if enabled, else the manual-action notice.\<close>

definition step3 ::
  "(exec_args \<Rightarrow> exec_result) \<Rightarrow> (send_point \<Rightarrow> bool) \<Rightarrow> Config \<Rightarrow> exec_result \<Rightarrow>
   exec_result \<Rightarrow> inv_state \<Rightarrow> flow" where
  "step3 exec raises cfg investigation diagnostics s0 =
     (if auto_remediate cfg
      then and_then (send raises SendStep3 s0) (\<lambda>s.
             let a = attempt_remediation cfg (alert (inc s))
                       (if output_text diagnostics \<noteq> [] then output_text diagnostics
                        else output_text investigation) [];
                 remediation = exec a;
                 s = add_cost (get_cost remediation) (invoke a s)
             in if success remediation
                then and_then (send raises SendRemediation s)
                       (\<lambda>s. Continue (set_status ''resolved'' s))
                else and_then (send raises SendRemediationIssue s)
                       (\<lambda>s. Continue (set_status ''needs_review'' s)))
      else and_then (send raises SendManualAction s0)
             (\<lambda>s. Continue (set_status ''needs_action'' s)))"

text \<open>Step 2 (lines 1017-1039): diagnostics; a failure is reported and the run goes on.\<close>

definition step2 ::
  "(exec_args \<Rightarrow> exec_result) \<Rightarrow> (send_point \<Rightarrow> bool) \<Rightarrow> Config \<Rightarrow> exec_result \<Rightarrow>
   inv_state \<Rightarrow> flow" where
  "step2 exec raises cfg investigation s0 =
     and_then (send raises SendStep2 s0) (\<lambda>s.
       let a = run_diagnostics cfg (alert (inc s)) (output_text investigation);
           diagnostics = exec a;
           s = add_cost (get_cost diagnostics) (invoke a s)
       in and_then
            (send raises (if success diagnostics then SendDiagnostics else SendDiagnosticsIssue) s)
            (step3 exec raises cfg investigation diagnostics))"

text \<open>The end of the body (lines 1084-1106): the ledger and the summary.\<close>

definition finish :: "(send_point \<Rightarrow> bool) \<Rightarrow> inv_state \<Rightarrow> flow" where
  "finish raises s = send raises SendSummary (s\<lparr>bot_total := bot_total s + cost_usd (inc s)\<rparr>)"

text \<open>The body of the \<^verbatim>\<open>try\<close> (lines 988-1106).\<close>

definition investigate_body ::
  "(exec_args \<Rightarrow> exec_result) \<Rightarrow> (send_point \<Rightarrow> bool) \<Rightarrow> Config \<Rightarrow> inv_state \<Rightarrow> flow" where
  "investigate_body exec raises cfg s0 =
     and_then (send raises SendStep1 s0) (\<lambda>s.
       let a = investigate_alert cfg (alert (inc s));
           investigation = exec a;
           s = add_cost (get_cost investigation) (invoke a s)
       in if success investigation
          then and_then (and_then (send raises SendAnalysis s) (step2 exec raises cfg investigation))
                 (finish raises)
          else and_then (send raises SendInvestigationIssue s) Return)"

text \<open>
  \<^verbatim>\<open>_investigate_incident\<close>: the lookup, the body, and the \<^verbatim>\<open>except Exception\<close>
  handler, which sends the error notice and then sets the status \<^verbatim>\<open>error\<close>. When the
  send in the handler raises as well, the exception leaves the function (\<open>escaped\<close>).
\<close>

record inv_result =
  bot_after :: OracleAgent
  events :: "event list"
  escaped :: bool

definition store :: "OracleAgent \<Rightarrow> string \<Rightarrow> bool \<Rightarrow> inv_state \<Rightarrow> inv_result" where
  "store agent incident_id esc s =
     \<lparr>bot_after = agent\<lparr>active_incidents := AList.update incident_id (inc s) (active_incidents agent),
                       total_cost_usd := bot_total s\<rparr>,
      events = trace s, escaped = esc\<rparr>"

definition investigate_incident ::
  "(exec_args \<Rightarrow> exec_result) \<Rightarrow> (send_point \<Rightarrow> bool) \<Rightarrow> OracleAgent \<Rightarrow> string \<Rightarrow> inv_result" where
  "investigate_incident exec raises agent incident_id =
     (case map_of (active_incidents agent) incident_id of
        None \<Rightarrow> \<lparr>bot_after = agent, events = [], escaped = False\<rparr>
      | Some incident \<Rightarrow>
          (case investigate_body exec raises (config agent)
                  \<lparr>inc = incident, bot_total = total_cost_usd agent, trace = []\<rparr> of
             Continue s \<Rightarrow> store agent incident_id False s
           | Return s \<Rightarrow> store agent incident_id False s
           | Raise s \<Rightarrow>
               (case send raises SendInvestigationError s of
                  Continue s' \<Rightarrow> store agent incident_id False (set_status ''error'' s')
                | Return s' \<Rightarrow> store agent incident_id False s'
                | Raise s' \<Rightarrow> store agent incident_id True s')))"

text \<open>The calls of \<^verbatim>\<open>execute\<close> in a trace, and the status and cost of an incident.\<close>

fun invocations :: "event list \<Rightarrow> exec_args list" where
  "invocations [] = []"
| "invocations (Sent p # es) = invocations es"
| "invocations (Invoked a # es) = a # invocations es"

definition status_of :: "OracleAgent \<Rightarrow> string \<Rightarrow> string option" where
  "status_of agent incident_id = map_option status (map_of (active_incidents agent) incident_id)"

definition cost_of :: "OracleAgent \<Rightarrow> string \<Rightarrow> rat option" where
  "cost_of agent incident_id = map_option cost_usd (map_of (active_incidents agent) incident_id)"

subsection \<open>Runs of the agent\<close>

text \<open>
  What happens to the incident table during a process run: alerts are accepted, and
  incidents are investigated (by the task \<^verbatim>\<open>handle_alert\<close> creates, or by the
  \<^verbatim>\<open>/investigate\<close> command). Nothing else in the program writes to
  \<^verbatim>\<open>active_incidents\<close>. An investigation changes the status and the cost of the
  incident's dictionary in place; it is taken as one step of the run.
\<close>

datatype agent_step =
    Alert datetime datetime alert_data
  | Investigate "exec_args \<Rightarrow> exec_result" "send_point \<Rightarrow> bool" string

fun do_step :: "OracleAgent \<Rightarrow> agent_step \<Rightarrow> OracleAgent" where
  "do_step agent (Alert now now' a) = fst (handle_alert now now' a agent)"
| "do_step agent (Investigate exec raises incident_id) =
     bot_after (investigate_incident exec raises agent incident_id)"

definition run_agent :: "agent_step list \<Rightarrow> OracleAgent \<Rightarrow> OracleAgent" where
  "run_agent steps agent = foldl do_step agent steps"

text \<open>The clock reads that name the incidents of a run.\<close>

fun alert_times :: "agent_step list \<Rightarrow> datetime list" where
  "alert_times [] = []"
| "alert_times (Alert now now' a # steps) = now # alert_times steps"
| "alert_times (Investigate exec raises incident_id # steps) = alert_times steps"

text \<open>The alert stored under an identifier, and the state a piece of the body ends in.\<close>

definition entry_alert :: "OracleAgent \<Rightarrow> string \<Rightarrow> alert_data option" where
  "entry_alert agent incident_id = map_option alert (map_of (active_incidents agent) incident_id)"

fun flow_state :: "flow \<Rightarrow> inv_state" where
  "flow_state (Continue s) = s"
| "flow_state (Return s) = s"
| "flow_state (Raise s) = s"

subsection \<open>Concrete alerts\<close>

definition ex_alert :: alert_data where
  "ex_alert = \<lparr>title = ''Disk full'', level = ''critical'', description = ''/var is at 98%'',
               alert_fields = [], channel = ''alerts'', timestamp = ''2025-01-15T10:30:45''\<rparr>"

definition ex_alert2 :: alert_data where
  "ex_alert2 = \<lparr>title = ''Harbor down'', level = ''warning'', description = ''registry unreachable'',
                alert_fields = [], channel = ''docker'', timestamp = ''2025-01-15T10:30:45''\<rparr>"

definition ex_t1 :: datetime where
  "ex_t1 = \<lparr>dt_year = 2025, dt_month = 1, dt_day = 15, dt_hour = 10, dt_minute = 30,
            dt_second = 45, dt_microsecond = 120000\<rparr>"

definition ex_t2 :: datetime where
  "ex_t2 = \<lparr>dt_year = 2025, dt_month = 1, dt_day = 15, dt_hour = 10, dt_minute = 30,
            dt_second = 45, dt_microsecond = 870000\<rparr>"

definition ex_t3 :: datetime where
  "ex_t3 = \<lparr>dt_year = 2025, dt_month = 1, dt_day = 15, dt_hour = 10, dt_minute = 30,
            dt_second = 46, dt_microsecond = 5\<rparr>"

definition ex_bot :: OracleAgent where
  "ex_bot = \<lparr>config = ex_cfg, active_incidents = [], auto_respond_now = True, total_cost_usd = 0\<rparr>"

text \<open>
  An executor whose investigation phase fails at a cost of 0.02 USD (the result
  \<^verbatim>\<open>execute\<close> gives for the failing CLI run above), and no send raises.
\<close>

definition ex_failed_investigation :: exec_result where
  "ex_failed_investigation =
     fst (execute ex_env_json_fail {} (investigate_alert ex_cfg ex_alert))"

definition ex_exec_fail :: "exec_args \<Rightarrow> exec_result" where
  "ex_exec_fail a = ex_failed_investigation"

definition ex_bot1 :: OracleAgent where
  "ex_bot1 = fst (handle_alert ex_t1 ex_t1 ex_alert ex_bot)"

definition ex_t4 :: datetime where
  "ex_t4 = \<lparr>dt_year = 2025, dt_month = 1, dt_day = 15, dt_hour = 10, dt_minute = 30,
            dt_second = 47, dt_microsecond = 0\<rparr>"

text \<open>
  Four alerts, the first two within one second, and an investigation in between.
\<close>

definition ex_steps :: "agent_step list" where
  "ex_steps = [Alert ex_t1 ex_t1 ex_alert,
               Alert ex_t2 ex_t2 ex_alert2,
               Investigate ex_exec_fail (\<lambda>p. False) ''INC-20250115103045'',
               Alert ex_t3 ex_t3 ex_alert,
               Alert ex_t4 ex_t4 ex_alert2]"

section \<open>Rounding to binary64 never crosses a binary64 number\<close>

lemma round_half_even_le: "q \<le> of_int n \<Longrightarrow> round_half_even q \<le> n"
proof -
  assume q: "q \<le> of_int n"
  then have f: "\<lfloor>q\<rfloor> \<le> n" by (simp add: floor_le_iff)
  show ?thesis
  proof (cases "\<lfloor>q\<rfloor> = n")
    case True
    with q have "q = of_int \<lfloor>q\<rfloor>" using of_int_floor_le [of q] by linarith
    then have "q - of_int \<lfloor>q\<rfloor> < 1 / 2" by simp
    with True show ?thesis by (simp add: round_half_even_def Let_def)
  next
    case False
    with f have "\<lfloor>q\<rfloor> + 1 \<le> n" by simp
    then show ?thesis by (simp add: round_half_even_def Let_def)
  qed
qed

lemma round_half_even_ge: "of_int n \<le> q \<Longrightarrow> n \<le> round_half_even q"
proof -
  assume "of_int n \<le> q"
  then have "n \<le> \<lfloor>q\<rfloor>" by (simp add: le_floor_iff)
  then show ?thesis by (simp add: round_half_even_def Let_def)
qed

lemma pow2_bitlen:
  assumes "0 < a"
  shows "2 powi (bitlen a - 1) \<le> (of_int a :: rat)" and "(of_int a :: rat) < 2 powi bitlen a"
proof -
  have l: "0 < bitlen a"
  proof (rule ccontr)
    assume "\<not> 0 < bitlen a"
    then have "nat (bitlen a) = 0" by simp
    with bitlen_bounds [OF assms] have "a < 1" by simp
    with assms show False by simp
  qed
  from bitlen_bounds [OF assms] have lo: "2 ^ nat (bitlen a - 1) \<le> a" and hi: "a < 2 ^ nat (bitlen a)"
    by simp_all
  from lo have "(of_int (2 ^ nat (bitlen a - 1)) :: rat) \<le> of_int a" by (simp only: of_int_le_iff)
  then show "2 powi (bitlen a - 1) \<le> (of_int a :: rat)"
    using l by (simp add: power_int_def)
  from hi have "(of_int a :: rat) < of_int (2 ^ nat (bitlen a))" by (simp only: of_int_less_iff)
  then show "(of_int a :: rat) < 2 powi bitlen a"
    using l by (simp add: power_int_def)
qed

lemma ilog2_bounds:
  assumes "0 < x"
  shows "2 powi ilog2 x \<le> x" and "x < 2 powi (ilog2 x + 1)"
proof -
  obtain a b where q: "quotient_of x = (a, b)" by (cases "quotient_of x")
  then have b: "0 < b" using quotient_of_denom_pos by blast
  from q have x: "x = of_int a / of_int b" by (rule quotient_of_div)
  with assms b have a: "0 < a" by (simp add: zero_less_divide_iff)
  define k where "k = bitlen a - bitlen b"
  note pa = pow2_bitlen [OF a] and pb = pow2_bitlen [OF b]
  have B: "(0::rat) < of_int b" using b by simp
  have up: "x < 2 powi (k + 1)"
  proof -
    have "x < 2 powi bitlen a / 2 powi (bitlen b - 1)"
      unfolding x using pa(2) pb(1) a
      by (intro frac_less) simp_all
    also have "\<dots> = 2 powi (k + 1)"
      unfolding k_def by (simp add: power_int_diff [symmetric] algebra_simps)
    finally show ?thesis .
  qed
  have down: "2 powi (k - 1) < x"
  proof -
    have "2 powi (bitlen a - 1) / 2 powi bitlen b < x"
      unfolding x using pa(1) pb(2) B
      by (intro frac_less2) simp_all
    moreover have "2 powi (bitlen a - 1) / 2 powi bitlen b = (2::rat) powi (k - 1)"
      unfolding k_def by (simp add: power_int_diff [symmetric] algebra_simps)
    ultimately show ?thesis by simp
  qed
  have il: "ilog2 x = (if 2 powi k \<le> x then k else k - 1)"
    by (simp add: ilog2_def q k_def Let_def)
  show "2 powi ilog2 x \<le> x" using il down by (auto simp: less_imp_le)
  show "x < 2 powi (ilog2 x + 1)" using il up by (auto simp: not_le)
qed


lemma scaled_bounds:
  assumes "0 < x"
  shows "2 ^ 52 \<le> x / 2 powi (ilog2 x - 52)" and "x / 2 powi (ilog2 x - 52) < 2 ^ 53"
proof -
  have s: "(0::rat) < 2 powi (ilog2 x - 52)" by simp
  have e1: "(2::rat) powi ilog2 x = 2 ^ 52 * 2 powi (ilog2 x - 52)"
    using power_int_add [of "2::rat" 52 "ilog2 x - 52"] by simp
  have e2: "(2::rat) powi (ilog2 x + 1) = 2 ^ 53 * 2 powi (ilog2 x - 52)"
    using power_int_add [of "2::rat" 53 "ilog2 x - 52"] by (simp add: add.commute)
  from ilog2_bounds(1) [OF assms] e1 have "2 ^ 52 * 2 powi (ilog2 x - 52) \<le> x" by simp
  then show "2 ^ 52 \<le> x / 2 powi (ilog2 x - 52)" using s by (simp add: pos_le_divide_eq)
  from ilog2_bounds(2) [OF assms] e2 have "x < 2 ^ 53 * 2 powi (ilog2 x - 52)" by simp
  then show "x / 2 powi (ilog2 x - 52) < 2 ^ 53" using s by (simp add: pos_divide_less_eq)
qed

lemma on_grid:
  assumes k: "0 < k" "k < 2 ^ 53" and big: "2 ^ 52 * 2 powi e \<le> (of_int k :: rat) * 2 powi j"
  shows "\<exists>n::int. of_int k * 2 powi j / 2 powi e = (of_int n :: rat)"
proof -
  have ej: "e \<le> j"
  proof (rule ccontr)
    assume "\<not> e \<le> j"
    then have "j \<le> e - 1" by simp
    then have "(2::rat) powi j \<le> 2 powi (e - 1)" by (intro power_int_increasing) simp_all
    also have "\<dots> = 2 powi e / 2" by (simp add: power_int_diff)
    finally have j: "(2::rat) powi j \<le> 2 powi e / 2" .
    from k have "(of_int k :: rat) < 2 ^ 53"
      by (metis of_int_less_iff of_int_numeral of_int_power)
    moreover have "(0::rat) < 2 powi j" by simp
    ultimately have "(of_int k :: rat) * 2 powi j < 2 ^ 53 * 2 powi j" by (simp only: mult_strict_right_mono)
    also have "\<dots> \<le> 2 ^ 53 * (2 powi e / 2)" using j by (intro mult_left_mono) simp_all
    also have "\<dots> = 2 ^ 52 * 2 powi e" by simp
    finally show False using big by simp
  qed
  have "(2::rat) powi j / 2 powi e = 2 powi (j - e)" by (simp add: power_int_diff)
  also have "\<dots> = 2 ^ nat (j - e)" using ej by (simp add: power_int_def)
  finally have d: "(2::rat) powi j / 2 powi e = 2 ^ nat (j - e)" .
  have "of_int k * 2 powi j / 2 powi e = (of_int k :: rat) * (2 powi j / 2 powi e)" by simp
  also have "\<dots> = (of_int (k * 2 ^ nat (j - e)) :: rat)" by (simp only: d) simp
  finally have "of_int k * 2 powi j / 2 powi e = (of_int (k * 2 ^ nat (j - e)) :: rat)" .
  then show ?thesis by blast
qed

lemma round_to_double_pos:
  "0 < x \<Longrightarrow> round_to_double x =
     of_int (round_half_even (x / 2 powi (ilog2 x - 52))) * 2 powi (ilog2 x - 52)"
  by (simp add: round_to_double_def Let_def)

lemma pos_upper:
  assumes x: "0 < x" and xy: "x \<le> y" and rep: "representable y"
  shows "round_to_double x \<le> y"
proof -
  define e where "e = ilog2 x - 52"
  have s: "(0::rat) < 2 powi e" by simp
  from rep obtain k j where k: "\<bar>k\<bar> < 2 ^ 53" and y: "y = of_int k * 2 powi j"
    unfolding representable_def by blast
  from x xy y have "0 < (of_int k :: rat) * 2 powi j" by simp
  then have "(0::rat) < of_int k" by (rule zero_less_mult_pos2) simp
  then have kp: "0 < k" by simp
  with k have k53: "k < 2 ^ 53" by simp
  from scaled_bounds(1) [OF x] have "2 ^ 52 * 2 powi e \<le> x"
    unfolding e_def using s by (simp add: pos_le_divide_eq)
  with xy y have "2 ^ 52 * 2 powi e \<le> (of_int k :: rat) * 2 powi j" by simp
  from on_grid [OF kp k53 this] obtain n :: int where n: "y / 2 powi e = of_int n"
    unfolding y by blast
  from xy s have "x / 2 powi e \<le> y / 2 powi e" by (simp add: divide_right_mono)
  with n have "round_half_even (x / 2 powi e) \<le> n" by (simp add: round_half_even_le)
  then have "(of_int (round_half_even (x / 2 powi e)) :: rat) \<le> of_int n" by simp
  then have "of_int (round_half_even (x / 2 powi e)) * 2 powi e \<le> (of_int n :: rat) * 2 powi e"
    using s by (simp only: mult_le_cancel_right_pos)
  also have "\<dots> = y" using n [symmetric] by simp
  finally show ?thesis by (simp add: round_to_double_pos [OF x] e_def)
qed

lemma pos_lower:
  assumes x: "0 < x" and yx: "y \<le> x" and rep: "representable y"
  shows "y \<le> round_to_double x"
proof -
  define e where "e = ilog2 x - 52"
  define m where "m = round_half_even (x / 2 powi e)"
  have s: "(0::rat) < 2 powi e" by simp
  have r: "round_to_double x = of_int m * 2 powi e"
    by (simp add: round_to_double_pos [OF x] e_def m_def)
  from scaled_bounds(1) [OF x] have q: "of_int (2 ^ 52) \<le> x / 2 powi e" by (simp add: e_def)
  then have m52: "2 ^ 52 \<le> m" unfolding m_def by (rule round_half_even_ge)
  then have m52': "(2 ^ 52 :: rat) \<le> of_int m"
    by (metis of_int_le_iff of_int_numeral of_int_power)
  show ?thesis
  proof (cases "y < 2 ^ 52 * 2 powi e")
    case True
    also have "(2::rat) ^ 52 * 2 powi e \<le> of_int m * 2 powi e"
      using m52' s by (simp only: mult_le_cancel_right_pos)
    finally show ?thesis using r by simp
  next
    case False
    then have big: "2 ^ 52 * 2 powi e \<le> y" by simp
    from rep obtain k j where k: "\<bar>k\<bar> < 2 ^ 53" and y: "y = of_int k * 2 powi j"
      unfolding representable_def by blast
    have "(0::rat) < 2 ^ 52 * 2 powi e" by simp
    with big have "0 < y" by linarith
    with y have "0 < (of_int k :: rat) * 2 powi j" by simp
    then have "(0::rat) < of_int k" by (rule zero_less_mult_pos2) simp
    then have kp: "0 < k" by simp
    with k have k53: "k < 2 ^ 53" by simp
    from big y have "2 ^ 52 * 2 powi e \<le> (of_int k :: rat) * 2 powi j" by simp
    from on_grid [OF kp k53 this] obtain n :: int where n: "y / 2 powi e = of_int n"
      unfolding y by blast
    from yx s have "y / 2 powi e \<le> x / 2 powi e" by (simp add: divide_right_mono)
    with n have "n \<le> m" unfolding m_def by (simp add: round_half_even_ge)
    then have "(of_int n :: rat) \<le> of_int m" by simp
    then have "(of_int n :: rat) * 2 powi e \<le> of_int m * 2 powi e"
      using s by (simp only: mult_le_cancel_right_pos)
    moreover have "(of_int n :: rat) * 2 powi e = y" using n [symmetric] by simp
    ultimately show ?thesis using r by simp
  qed
qed


lemma round_to_double_minus: "round_to_double (- x) = - round_to_double x"
  by (simp add: round_to_double_def Let_def)

lemma representable_minus: "representable y \<Longrightarrow> representable (- y)"
proof -
  assume "representable y"
  then obtain k j where "\<bar>k\<bar> < 2 ^ 53" "y = of_int k * 2 powi j"
    unfolding representable_def by blast
  then have "\<bar>- k\<bar> < 2 ^ 53" "- y = of_int (- k) * 2 powi j" by simp_all
  then show ?thesis unfolding representable_def by blast
qed

lemma representable_dyadic: "\<bar>k\<bar> < 2 ^ 53 \<Longrightarrow> representable (of_int k / 2 ^ n)"
proof -
  assume k: "\<bar>k\<bar> < 2 ^ 53"
  have "(of_int k :: rat) / 2 ^ n = of_int k * 2 powi (- int n)"
    by (simp add: power_int_minus field_simps)
  with k show ?thesis unfolding representable_def by blast
qed

lemma representable_of_int: "\<bar>k\<bar> < 2 ^ 53 \<Longrightarrow> representable (of_int k)"
  using representable_dyadic [of k 0] by simp

lemma round_upper:
  assumes xy: "x \<le> y" and rep: "representable y"
  shows "round_to_double x \<le> y"
proof -
  consider "0 < x" | "x = 0" | "x < 0" by linarith
  then show ?thesis
  proof cases
    case 1
    then show ?thesis using xy rep by (rule pos_upper)
  next
    case 2
    with xy show ?thesis by (simp add: round_to_double_def)
  next
    case 3
    then have p: "0 < - x" by simp
    have r: "round_to_double x = - round_to_double (- x)" by (simp add: round_to_double_minus)
    show ?thesis
    proof (cases "0 \<le> y")
      case True
      have "representable 0" using representable_of_int [of 0] by simp
      with p have "0 \<le> round_to_double (- x)" by (intro pos_lower) simp_all
      with r True show ?thesis by simp
    next
      case False
      from xy have "- y \<le> - x" by simp
      with p have "- y \<le> round_to_double (- x)"
        using representable_minus [OF rep] by (intro pos_lower)
      with r show ?thesis by simp
    qed
  qed
qed

lemma round_lower:
  assumes yx: "y \<le> x" and rep: "representable y"
  shows "y \<le> round_to_double x"
proof -
  from yx have "- x \<le> - y" by simp
  then have "round_to_double (- x) \<le> - y" using representable_minus [OF rep] by (rule round_upper)
  then show ?thesis by (simp add: round_to_double_minus)
qed

text \<open>
  For timeouts below \<open>2\<^sup>2\<^sup>7\<close> minutes the float comparison in
  \<^verbatim>\<open>get_or_create_session\<close> decides exactly whether the idle time is below the timeout.
\<close>

lemma minutes_less_iff:
  assumes t: "\<bar>t\<bar> < 2 ^ 27"
  shows "round_to_double (total_seconds d / 60) < of_int t \<longleftrightarrow> d < t * 60000000"
proof
  assume less: "round_to_double (total_seconds d / 60) < of_int t"
  show "d < t * 60000000"
  proof (rule ccontr)
    assume "\<not> d < t * 60000000"
    then have "t * 60000000 \<le> d" by simp
    then have "(of_int (t * 60000000) :: rat) \<le> of_int d" by (simp only: of_int_le_iff)
    then have "(of_int (t * 60) :: rat) \<le> of_int d / 1000000" by simp
    moreover from t have "\<bar>t * 60\<bar> < 2 ^ 53" by (simp add: abs_mult)
    ultimately have "(of_int (t * 60) :: rat) \<le> total_seconds d"
      unfolding total_seconds_def by (intro round_lower representable_of_int)
    then have "(of_int t :: rat) \<le> total_seconds d / 60" by simp
    moreover from t have "\<bar>t\<bar> < 2 ^ 53" by simp
    ultimately have "(of_int t :: rat) \<le> round_to_double (total_seconds d / 60)"
      by (intro round_lower representable_of_int)
    with less show False by simp
  qed
next
  assume "d < t * 60000000"
  then have "d \<le> t * 60000000 - 1" by simp
  then have "(of_int d :: rat) \<le> of_int (t * 60000000 - 1)" by (simp only: of_int_le_iff)
  then have "(of_int d :: rat) / 1000000 \<le> of_int t * 60 - 1 / 1000000" by simp
  also have "\<dots> \<le> of_int (t * 60 * 2 ^ 20 - 1) / 2 ^ 20" by (simp add: field_simps)
  finally have "(of_int d :: rat) / 1000000 \<le> of_int (t * 60 * 2 ^ 20 - 1) / 2 ^ 20" .
  moreover from t have "\<bar>t * 60 * 2 ^ 20 - 1\<bar> < 2 ^ 53" by simp
  ultimately have "total_seconds d \<le> of_int (t * 60 * 2 ^ 20 - 1) / 2 ^ 20"
    unfolding total_seconds_def by (intro round_upper representable_dyadic)
  then have "total_seconds d / 60 \<le> (of_int (t * 60 * 2 ^ 20 - 1) / 2 ^ 20) / 60" by simp
  also have "\<dots> \<le> of_int (t * 2 ^ 26 - 1) / 2 ^ 26" by (simp add: field_simps)
  finally have "total_seconds d / 60 \<le> of_int (t * 2 ^ 26 - 1) / 2 ^ 26" .
  moreover from t have "\<bar>t * 2 ^ 26 - 1\<bar> < 2 ^ 53" by simp
  ultimately have "round_to_double (total_seconds d / 60) \<le> of_int (t * 2 ^ 26 - 1) / 2 ^ 26"
    by (intro round_upper representable_dyadic)
  also have "\<dots> < of_int t" by (simp add: field_simps)
  finally show "round_to_double (total_seconds d / 60) < of_int t" .
qed



lemma age_minutes_less_iff:
  "\<bar>t\<bar> < 2 ^ 27 \<Longrightarrow> age_minutes now s < of_int t \<longleftrightarrow> now - last_used s < t * 60000000"
  unfolding age_minutes_def by (rule minutes_less_iff)

lemma age_minutes_less_30: "age_minutes now s < 30 \<longleftrightarrow> now - last_used s < 1800000000"
  using age_minutes_less_iff [of 30 now s] by simp

subsection \<open>The invariant of the manager and the tokens it hands out\<close>

lemma sm_inv_upd:
  "sm_inv m \<Longrightarrow> channel_id s = k \<Longrightarrow> 1 \<le> message_count s \<Longrightarrow>
     sm_inv (m\<lparr>sessions := (sessions m)(k \<mapsto> s)\<rparr>)"
  by (simp add: sm_inv_def)

lemma sm_inv_lookup:
  "sm_inv m \<Longrightarrow> sessions m k = Some s \<Longrightarrow> channel_id s = k \<and> 1 \<le> message_count s"
  by (simp add: sm_inv_def)

lemma sm_inv_get_or_create:
  assumes "sm_inv m" and "get_or_create_session env cid m = (r, m')"
  shows "sm_inv m'"
proof (cases "sessions m cid")
  case None
  with assms show ?thesis
    by (auto simp: get_or_create_session_def new_ChannelSession_def Let_def intro!: sm_inv_upd)
next
  case (Some s)
  with assms(1) have "channel_id s = cid" "1 \<le> message_count s"
    using sm_inv_lookup by blast+
  with assms Some show ?thesis
    by (auto simp: get_or_create_session_def new_ChannelSession_def Let_def
             intro!: sm_inv_upd split: if_splits)
qed

lemma sm_inv_reset:
  "sm_inv m \<Longrightarrow> reset_session env cid m = (r, m') \<Longrightarrow> sm_inv m'"
  by (auto simp: reset_session_def new_ChannelSession_def intro!: sm_inv_upd)

lemma sm_inv_update_cost: "sm_inv m \<Longrightarrow> sm_inv (update_cost cid c m)"
proof (cases "sessions m cid")
  case None
  assume "sm_inv m"
  with None show ?thesis by (simp add: update_cost_def)
next
  case (Some s)
  assume "sm_inv m"
  with Some show ?thesis
    using sm_inv_lookup [of m cid s]
    by (auto simp: update_cost_def intro!: sm_inv_upd)
qed

lemma sm_inv_step: "sm_inv m \<Longrightarrow> step c m = (m', toks) \<Longrightarrow> sm_inv m'"
  by (cases c)
     (auto split: prod.splits
           intro: sm_inv_get_or_create sm_inv_reset sm_inv_update_cost)

lemma sm_inv_run: "sm_inv m \<Longrightarrow> run cs (m, issued) = (m', issued') \<Longrightarrow> sm_inv m'"
proof (induction cs arbitrary: m issued)
  case Nil
  then show ?case by simp
next
  case (Cons c cs)
  obtain m1 toks where st: "step c m = (m1, toks)" by (cases "step c m")
  with Cons.prems have "sm_inv m1" using sm_inv_step by blast
  with Cons.IH Cons.prems(2) st show ?case by simp
qed

lemma sm_inv_init: "sm_inv (SessionManager_init t)"
  by (simp add: sm_inv_def SessionManager_init_def)









lemma get_or_create_absent:
  "sessions m cid = None \<Longrightarrow>
     get_or_create_session env cid m =
       ((uuid4 env, False), m\<lparr>sessions := (sessions m)(cid \<mapsto> new_ChannelSession env cid)\<rparr>)"
  by (simp add: get_or_create_session_def Let_def)








subsection \<open>Two calls in a row, and the invariant over all runs\<close>









text \<open>
  Claim C10. In every state the manager reaches by any sequence of
  \<^verbatim>\<open>get_or_create_session\<close>, \<^verbatim>\<open>reset_session\<close>, \<^verbatim>\<open>update_cost\<close> and
  \<^verbatim>\<open>get_session_info\<close> calls, every stored session carries the key it is stored under as
  its \<^verbatim>\<open>channel_id\<close> and has a message count of at least 1, no two entries belong to the
  same channel, and \<^verbatim>\<open>update_cost\<close> and \<^verbatim>\<open>get_session_info\<close> leave every session's token
  and message count as they were.
\<close>

theorem session_manager_invariant:
  assumes "run cs (SessionManager_init t, []) = (m, issued)"
  shows "sm_inv m \<and>
         (\<forall>k k' s s'. sessions m k = Some s \<and> sessions m k' = Some s' \<and>
             channel_id s = channel_id s' \<longrightarrow> k = k' \<and> s = s') \<and>
         (\<forall>cid c k. fst (step (UpdateCost cid c) m) = update_cost cid c m \<and>
             map_option token_and_count (sessions (update_cost cid c m) k) =
             map_option token_and_count (sessions m k)) \<and>
         (\<forall>cid. fst (step (GetInfo cid) m) = m \<and> get_session_info cid m = sessions m cid)"
proof -
  have inv: "sm_inv m" using sm_inv_run [OF sm_inv_init assms] .
  have one: "k = k' \<and> s = s'"
    if "sessions m k = Some s" "sessions m k' = Some s'" "channel_id s = channel_id s'"
    for k k' s s'
    using sm_inv_lookup [OF inv that(1)] sm_inv_lookup [OF inv that(2)] that by auto
  have upd: "map_option token_and_count (sessions (update_cost cid c m) k) =
             map_option token_and_count (sessions m k)" for cid c k
    by (cases "sessions m cid") (auto simp: update_cost_def token_and_count_def)
  from inv one upd show ?thesis by (simp add: get_session_info_def) blast
qed

theorem session_manager_invariant_witness:
  "sm_inv (fst (run ex_calls (SessionManager_init 30, []))) \<and>
   map_option token_and_count (sessions (fst (run ex_calls (SessionManager_init 30, []))) 5)
     = Some (''c'', 1) \<and>
   map_option token_and_count (sessions (fst (run ex_calls (SessionManager_init 30, []))) 7)
     = Some (''b'', 1) \<and>
   sessions (fst (run ex_calls (SessionManager_init 30, []))) 9 = None"
proof -
  have "run ex_calls (SessionManager_init 30, []) =
      (fst (run ex_calls (SessionManager_init 30, [])), snd (run ex_calls (SessionManager_init 30, [])))"
    by simp
  from session_manager_invariant [OF this]
  have "sm_inv (fst (run ex_calls (SessionManager_init 30, [])))" by blast
  then show ?thesis
    by (simp add: ex_calls_def get_or_create_session_def reset_session_def update_cost_def
        SessionManager_init_def new_ChannelSession_def Let_def age_minutes_less_30
        token_and_count_def ex_env0_def ex_env1_def ex_env2_def ex_env3_def)
qed

section \<open>Properties of the executor\<close>

lemma handle_exn_populated: "exn_has_message e \<Longrightarrow> error_populated (handle_exn n e)"
  by (cases e) (simp_all add: exn_has_message_def error_populated_def failure_def)

lemma handle_exn_fails: "\<not> success (handle_exn n e)"
  by (cases e) (simp_all add: failure_def)

lemma str_nat_nonempty: "str_nat n \<noteq> []"
  by (subst str_nat.simps) simp

lemma parse_output_decode_error_populated:
  assumes "loads out = JSONDecodeError"
      and "\<not> success (parse_output loads n rc out err)"
  shows "error_populated (parse_output loads n rc out err)"
  using assms by (auto simp: parse_output_def error_populated_def Let_def)

lemma parse_output_non_object_populated:
  assumes "loads out = JNonObject ty"
  shows "error_populated (parse_output loads n rc out err)"
    and "\<not> success (parse_output loads n rc out err)"
  using assms by (simp_all add: parse_output_def error_populated_def attribute_error_def failure_def)

lemma parse_output_object:
  assumes "loads out = JObject p"
  shows "error (parse_output loads n rc out err) = None"
    and "success (parse_output loads n rc out err) = (rc = 0)"
  using assms by (simp_all add: parse_output_def)

text \<open>Every failing path but the JSON-object one names its cause.\<close>

lemma execute_failure_error_populated:
  assumes fail: "\<not> success (fst (execute env fs a))"
      and msgs: "\<forall>e. tmp env = TmpRaises e \<or> proc env = SpawnRaises e \<longrightarrow> exn_has_message e"
      and not_json: "\<forall>rc out err p. proc env = Completes rc out err \<longrightarrow> json_loads env out \<noteq> JObject p"
  shows "error_populated (fst (execute env fs a))"
proof (cases "tmp env")
  case (TmpRaises e)
  with msgs show ?thesis by (simp add: execute_def handle_exn_populated)
next
  case (TmpCreated name written)
  show ?thesis
  proof (cases "proc env")
    case (SpawnRaises e)
    with msgs TmpCreated show ?thesis by (simp add: execute_def Let_def handle_exn_populated)
  next
    case WaitTimesOut
    with TmpCreated show ?thesis
      by (simp add: execute_def Let_def error_populated_def failure_def)
  next
    case (Completes rc out err)
    with not_json have nj: "\<And>p. json_loads env out \<noteq> JObject p" by blast
    show ?thesis
    proof (cases "json_loads env out")
      case JSONDecodeError
      with fail TmpCreated Completes show ?thesis
        by (simp add: execute_def Let_def parse_output_decode_error_populated)
    next
      case (JObject p)
      with nj [of p] show ?thesis by blast
    next
      case (JNonObject ty)
      with TmpCreated Completes show ?thesis
        by (simp add: execute_def Let_def parse_output_non_object_populated)
    qed
  qed
qed

text \<open>
  Claim C1. A result with \<^verbatim>\<open>success = False\<close> should carry a non-empty error detail on
  every path. On the path where standard output decodes as a JSON object and the exit code
  is not zero, \<^verbatim>\<open>execute\<close> returns a dictionary without the key \<^verbatim>\<open>error\<close>, although
  standard error was not empty; the callers then show \<^verbatim>\<open>Unknown error\<close>. (The lemma
  \<open>execute_failure_error_populated\<close> above shows that every other failing path names
  its cause.)
\<close>

theorem execute_json_nonzero_exit_no_error:
  "success (fst (execute ex_env_json_fail {} (ask_oracle_call ex_cfg ''why is harbor down''))) = False \<and>
   error (fst (execute ex_env_json_fail {} (ask_oracle_call ex_cfg ''why is harbor down''))) = None \<and>
   \<not> error_populated (fst (execute ex_env_json_fail {} (ask_oracle_call ex_cfg ''why is harbor down''))) \<and>
   get_error (fst (execute ex_env_json_fail {} (ask_oracle_call ex_cfg ''why is harbor down''))) = Some ''Unknown error''"
  by (simp add: execute_def ex_env_json_fail_def parse_output_def ex_loads_def Let_def
      error_populated_def get_error_def)

text \<open>
  Claim C3, as stated: when the child does not finish within the timeout, the process is
  terminated. In the source the expiry of \<^verbatim>\<open>wait_for\<close> only abandons the wait: the child
  that was started is still running when \<^verbatim>\<open>execute\<close> returns.
\<close>

theorem execute_timeout_leaves_process_running:
  "proc ex_env_timeout = WaitTimesOut \<and>
   process (snd (execute ex_env_timeout {} (ask_oracle_call ex_cfg ''why is harbor down''))) = Running"
  by (simp add: execute_def ex_env_timeout_def Let_def)

text \<open>
  Claim C3, amended: when the child was started and the wait for it expires after
  \<^verbatim>\<open>timeout\<close> seconds, \<^verbatim>\<open>execute\<close> returns (it does not wait for the child any
  longer) a result with \<^verbatim>\<open>success = False\<close>, an empty output and the error detail
  \<^verbatim>\<open>Claude CLI timed out after <timeout> seconds\<close>.
\<close>

theorem execute_timeout_result:
  assumes "tmp env = TmpCreated name written" and "proc env = WaitTimesOut"
  shows "fst (execute env fs a) =
           \<lparr>success = False, output_text = [], cost = None, res_session_id = None,
            num_turns = None, raw = None,
            error = Some (Some (''Claude CLI timed out after '' @ str_int (timeout a) @ '' seconds''))\<rparr>"
  using assms by (simp add: execute_def Let_def failure_def)

theorem execute_timeout_result_witness:
  "tmp ex_env_timeout = TmpCreated ''/tmp/tmpab12.md'' True \<and> proc ex_env_timeout = WaitTimesOut \<and>
   success (fst (execute ex_env_timeout {} (ask_oracle_call ex_cfg ''why is harbor down''))) = False \<and>
   error (fst (execute ex_env_timeout {} (ask_oracle_call ex_cfg ''why is harbor down'')))
     = Some (Some ''Claude CLI timed out after 180 seconds'')"
proof -
  have t: "tmp ex_env_timeout = TmpCreated ''/tmp/tmpab12.md'' True"
    and p: "proc ex_env_timeout = WaitTimesOut"
    by (simp_all add: ex_env_timeout_def)
  from execute_timeout_result [OF t p, of "{}" "ask_oracle_call ex_cfg ''why is harbor down''"] t p
  show ?thesis by (simp add: ask_oracle_call_def default_args_def str_int_def digit_char_def)
qed

text \<open>
  Claim C9. The temporary system-prompt file should be deleted after the call on every
  outcome path. The source deletes it only after \<^verbatim>\<open>communicate()\<close> has returned: when
  the wait times out or the executable is not found, the file is still there after the
  call. (When the child completes and \<^verbatim>\<open>os.unlink\<close> succeeds it is gone.)
\<close>

theorem execute_leaves_temp_file_on_exception_paths:
  "''/tmp/tmpab12.md'' \<in> files (snd (execute ex_env_timeout {} (ask_oracle_call ex_cfg ''why is harbor down''))) \<and>
   ''/tmp/tmpab12.md'' \<in> files (snd (execute ex_env_not_found {} (ask_oracle_call ex_cfg ''why is harbor down''))) \<and>
   ''/tmp/tmpab12.md'' \<notin> files (snd (execute ex_env_plain_ok {} (ask_oracle_call ex_cfg ''why is harbor down'')))"
  by (simp add: execute_def ex_env_timeout_def ex_env_not_found_def ex_env_plain_ok_def Let_def)

lemma execute_completed_releases_temp_file:
  assumes "tmp env = TmpCreated name written" and "proc env = Completes rc out err"
      and "unlink_ok env"
  shows "name \<notin> files (snd (execute env fs a))"
  using assms by (simp add: execute_def Let_def)

lemma execute_exception_keeps_temp_file:
  assumes "tmp env = TmpCreated name written"
      and "proc env = WaitTimesOut \<or> proc env = SpawnRaises e"
  shows "name \<in> files (snd (execute env fs a))"
  using assms by (auto simp: execute_def Let_def)

text \<open>
  Claim C6. Every call of \<^verbatim>\<open>execute\<close> should deny the interactive-question capability
  \<^verbatim>\<open>AskUserQuestion\<close>. The analysis phase of \<^verbatim>\<open>/remediate\<close> passes the literal list
  \<^verbatim>\<open>["Write", "Edit", "MultiEdit"]\<close>, and the command line it builds denies exactly
  these three. (The lemma \<open>other_call_sites_deny_questions\<close> below shows that the seven
  other call sites deny it.)
\<close>

theorem remediate_analysis_allows_questions:
  "disallowed_tools (remediate_analysis_call ''restart harbor'') = Some [''Write'', ''Edit'', ''MultiEdit''] \<and>
   \<not> denies_questions (remediate_analysis_call ''restart harbor'') \<and>
   build_cmd (remediate_analysis_call ''restart harbor'') (Some ''/tmp/tmpab12.md'') =
     [S ''claude'', S ''--print'', S ''--output-format'', S ''json'',
      S ''--dangerously-skip-permissions'', S ''--max-turns'', S ''15'',
      S ''--model'', S ''claude-opus-4-5-20250514'',
      S ''--disallowedTools'', S ''Write,Edit,MultiEdit'',
      S ''--max-budget-usd'', Budget (5 / 100),
      S ''--system-prompt'', TempFile ''/tmp/tmpab12.md'',
      PromptText (RemediateAnalysisPrompt ''restart harbor'')]"
  by (simp add: remediate_analysis_call_def default_args_def denies_questions_def build_cmd_def
      truthy_def)

lemma get_disallowed_tools_denies_questions: "''AskUserQuestion'' \<in> set (get_disallowed_tools cfg)"
  by (simp add: get_disallowed_tools_def Let_def)

lemma other_call_sites_deny_questions:
  "denies_questions (investigate_alert cfg a)"
  "denies_questions (run_diagnostics cfg a analysis)"
  "denies_questions (attempt_remediation cfg a diagnostics acts)"
  "denies_questions (conversation_call cfg author content sid is_resume)"
  "denies_questions (ask_oracle_call cfg question)"
  "denies_questions (run_task_call cfg task)"
  "denies_questions (remediate_execute_call cfg action)"
  by (simp_all add: denies_questions_def investigate_alert_def run_diagnostics_def
      attempt_remediation_def conversation_call_def ask_oracle_call_def run_task_call_def
      remediate_execute_call_def default_args_def get_disallowed_tools_denies_questions)

section \<open>Properties of the approval view\<close>

lemma dispatch_finished: "finished v \<Longrightarrow> dispatch v e = v"
  by (cases e) simp_all

lemma deliver_finished: "finished v \<Longrightarrow> deliver es v = v"
  unfolding deliver_def by (induction es) (simp_all add: dispatch_finished)

lemma deliver_append: "deliver (es @ es') v = deliver es' (deliver es v)"
  by (simp add: deliver_def)

lemma deliver_details_only:
  "\<forall>e \<in> set es. \<exists>u. e = ClickDetails u \<Longrightarrow> deliver es v = v"
  unfolding deliver_def
  by (induction es arbitrary: v) (auto simp: details_button_def)

text \<open>
  Claim C5. When the deadline of an approval request elapses and nobody has pressed
  Approve or Deny before (clicks on Details do not decide), the view ends with
  \<^verbatim>\<open>approved = False\<close> and no responder, and nothing that arrives later changes that;
  \<^verbatim>\<open>remediate_command\<close> has then called \<^verbatim>\<open>execute\<close> for the analysis only, and does
  not execute the remediation, whether it reads the view before or after \<^verbatim>\<open>on_timeout\<close>
  has run.
\<close>

theorem approval_deadline_denies:
  assumes pending: "\<forall>e \<in> set clicks. \<exists>u. e = ClickDetails u"
  shows "approved (deliver (clicks @ [DeadlineElapses]) (ApprovalView_init action cmd)) = Some False \<and>
         responder (deliver (clicks @ [DeadlineElapses]) (ApprovalView_init action cmd)) = None \<and>
         deliver (clicks @ [DeadlineElapses] @ later) (ApprovalView_init action cmd)
           = deliver (clicks @ [DeadlineElapses]) (ApprovalView_init action cmd) \<and>
         r_calls (remediate_command exec cfg total0 invoker action False handler_first clicks)
           = [remediate_analysis_call action] \<and>
         \<not> is_remediated (r_end (remediate_command exec cfg total0 invoker action False handler_first clicks))"
proof -
  let ?v0 = "ApprovalView_init action cmd"
  have same: "deliver clicks v = v" for v using deliver_details_only [OF pending] .
  have fin: "deliver (clicks @ [DeadlineElapses]) ?v0 = on_timeout (expire ?v0)"
    by (simp add: deliver_append same) (simp add: deliver_def ApprovalView_init_def)
  have a: "approved (deliver (clicks @ [DeadlineElapses]) ?v0) = Some False"
    and r: "responder (deliver (clicks @ [DeadlineElapses]) ?v0) = None"
    unfolding fin by (simp_all add: on_timeout_def expire_def ApprovalView_init_def)
  have l: "deliver (clicks @ [DeadlineElapses] @ later) ?v0 = deliver (clicks @ [DeadlineElapses]) ?v0"
  proof -
    have "deliver (clicks @ [DeadlineElapses] @ later) ?v0
        = deliver later (deliver (clicks @ [DeadlineElapses]) ?v0)"
      using deliver_append [of "clicks @ [DeadlineElapses]" later ?v0] by simp
    also have "\<dots> = deliver (clicks @ [DeadlineElapses]) ?v0"
      unfolding fin by (rule deliver_finished) (simp add: on_timeout_def expire_def)
    finally show ?thesis .
  qed
  have c: "r_calls (remediate_command exec cfg total0 invoker action False handler_first clicks)
           = [remediate_analysis_call action]"
    and e: "\<not> is_remediated (r_end (remediate_command exec cfg total0 invoker action False handler_first clicks))"
    by (simp_all add: remediate_command_def Let_def view_at_wakeup_def same ApprovalView_init_def
        on_timeout_def expire_def)
  from a r l c e show ?thesis by blast
qed

theorem approval_deadline_denies_witness:
  "approved (deliver (ex_clicks @ [DeadlineElapses]) (ApprovalView_init ''restart harbor'' ''cmd'')) = Some False \<and>
   responder (deliver (ex_clicks @ [DeadlineElapses, ClickApprove ''mallory'']) (ApprovalView_init ''restart harbor'' ''cmd'')) = None \<and>
   approved (deliver (ex_clicks @ [DeadlineElapses, ClickApprove ''mallory'']) (ApprovalView_init ''restart harbor'' ''cmd'')) = Some False \<and>
   r_end (remediate_command ex_exec ex_cfg 0 ''carol'' ''restart harbor'' False False ex_clicks) = ApprovalTimedOut \<and>
   r_end (remediate_command ex_exec ex_cfg 0 ''carol'' ''restart harbor'' False True ex_clicks) = UserDenied \<and>
   r_calls (remediate_command ex_exec ex_cfg 0 ''carol'' ''restart harbor'' False True ex_clicks)
     = [remediate_analysis_call ''restart harbor'']"
proof -
  have p: "\<forall>e \<in> set ex_clicks. \<exists>u. e = ClickDetails u" by (simp add: ex_clicks_def)
  from approval_deadline_denies [OF p, of "''restart harbor''" "''cmd''" "[ClickApprove ''mallory'']"
      ex_exec ex_cfg 0 "''carol''" True]
  have "approved (deliver (ex_clicks @ [DeadlineElapses]) (ApprovalView_init ''restart harbor'' ''cmd'')) = Some False"
    and "responder (deliver (ex_clicks @ [DeadlineElapses, ClickApprove ''mallory'']) (ApprovalView_init ''restart harbor'' ''cmd'')) = None"
    and "approved (deliver (ex_clicks @ [DeadlineElapses, ClickApprove ''mallory'']) (ApprovalView_init ''restart harbor'' ''cmd'')) = Some False"
    and "r_calls (remediate_command ex_exec ex_cfg 0 ''carol'' ''restart harbor'' False True ex_clicks)
     = [remediate_analysis_call ''restart harbor'']"
    by simp_all
  moreover have "r_end (remediate_command ex_exec ex_cfg 0 ''carol'' ''restart harbor'' False False ex_clicks) = ApprovalTimedOut"
    and "r_end (remediate_command ex_exec ex_cfg 0 ''carol'' ''restart harbor'' False True ex_clicks) = UserDenied"
    by (simp_all add: remediate_command_def Let_def view_at_wakeup_def ex_clicks_def deliver_def
        details_button_def ApprovalView_init_def on_timeout_def expire_def ex_exec_def ex_analysis_ok_def)
  ultimately show ?thesis by blast
qed

section \<open>Properties of the incident workflow\<close>

lemma ex_id: "incident_id_at ex_t1 = ''INC-20250115103045''"
  by (simp add: incident_id_at_def strftime_YmdHMS_def pad2_def pad4_def digit_char_def ex_t1_def)

lemma ex_failed: "success ex_failed_investigation = False" "get_cost ex_failed_investigation = 2 / 100"
  by (simp_all add: ex_failed_investigation_def execute_def ex_env_json_fail_def parse_output_def
      ex_loads_def ex_payload_def Let_def get_cost_def)

lemma ex_bot1_incidents:
  "active_incidents ex_bot1 =
     [(''INC-20250115103045'',
       \<lparr>inc_id = ''INC-20250115103045'', alert = ex_alert, status = ''investigating'',
        started_at = ex_t1, cost_usd = 0\<rparr>)]"
  "config ex_bot1 = ex_cfg" "total_cost_usd ex_bot1 = 0"
  by (simp_all add: ex_bot1_def handle_alert_def Let_def ex_id ex_bot_def)

text \<open>
  Claim C2. When the investigation phase returns \<^verbatim>\<open>success = False\<close>, the incident
  should end with the status \<^verbatim>\<open>error\<close> and no later phase should be invoked. The
  source reports the issue and returns without touching the status: the incident stays
  \<^verbatim>\<open>investigating\<close>. No later phase is invoked (in general: lemma
  \<open>failed_investigation_no_later_phase\<close> below).
\<close>

theorem failed_investigation_leaves_status_investigating:
  "status_of ex_bot1 ''INC-20250115103045'' = Some ''investigating'' \<and>
   success (ex_exec_fail (investigate_alert ex_cfg ex_alert)) = False \<and>
   status_of (bot_after (investigate_incident ex_exec_fail (\<lambda>p. False) ex_bot1 ''INC-20250115103045''))
      ''INC-20250115103045'' = Some ''investigating'' \<and>
   invocations (events (investigate_incident ex_exec_fail (\<lambda>p. False) ex_bot1 ''INC-20250115103045''))
     = [investigate_alert ex_cfg ex_alert]"
  by (simp add: status_of_def investigate_incident_def investigate_body_def ex_bot1_incidents
      send_def invoke_def add_cost_def store_def ex_exec_fail_def ex_failed Let_def)

text \<open>
  Claim C7. The cost of every executed phase should be added to the incident and to the
  process-wide ledger, also when the phase fails. The ledger is updated once, after step 3;
  the early return after a failed investigation skips it: the incident has the cost of the
  phase, the ledger does not. (For a run that reaches the summary both sums are right:
  lemma \<open>completed_investigation_costs\<close> below.)
\<close>

theorem failed_investigation_cost_not_in_ledger:
  "get_cost (ex_exec_fail (investigate_alert ex_cfg ex_alert)) = 2 / 100 \<and>
   total_cost_usd ex_bot1 = 0 \<and>
   cost_of (bot_after (investigate_incident ex_exec_fail (\<lambda>p. False) ex_bot1 ''INC-20250115103045''))
      ''INC-20250115103045'' = Some (2 / 100) \<and>
   total_cost_usd (bot_after (investigate_incident ex_exec_fail (\<lambda>p. False) ex_bot1 ''INC-20250115103045'')) = 0"
  by (simp add: cost_of_def investigate_incident_def investigate_body_def ex_bot1_incidents
      send_def invoke_def add_cost_def store_def ex_exec_fail_def ex_failed Let_def)


lemma failed_investigation_no_later_phase:
  assumes "map_of (active_incidents agent) iid = Some i"
      and "\<not> success (exec (investigate_alert (config agent) (alert i)))"
  shows "invocations (events (investigate_incident exec raises agent iid)) =
           (if raises SendStep1 then [] else [investigate_alert (config agent) (alert i)])"
  using assms
  by (simp add: investigate_incident_def investigate_body_def send_def invoke_def add_cost_def
      store_def set_status_def Let_def)

lemma failed_investigation_status:
  assumes "map_of (active_incidents agent) iid = Some i"
      and "\<not> success (exec (investigate_alert (config agent) (alert i)))"
      and "\<not> raises SendStep1" and "\<not> raises SendInvestigationIssue"
  shows "status_of (bot_after (investigate_incident exec raises agent iid)) iid = Some (status i)"
  using assms
  by (simp add: investigate_incident_def investigate_body_def send_def invoke_def add_cost_def
      store_def status_of_def update_conv' Let_def)

lemma completed_investigation_costs:
  assumes i: "map_of (active_incidents agent) iid = Some i"
      and ok: "success investigation"
      and inv: "investigation = exec (investigate_alert (config agent) (alert i))"
      and dia: "diagnostics = exec (run_diagnostics (config agent) (alert i) (output_text investigation))"
      and rem: "remediation = exec (attempt_remediation (config agent) (alert i)
                  (if output_text diagnostics \<noteq> [] then output_text diagnostics
                   else output_text investigation) [])"
      and sum: "phases = get_cost investigation + get_cost diagnostics
                  + (if auto_remediate (config agent) then get_cost remediation else 0)"
  shows "cost_of (bot_after (investigate_incident exec (\<lambda>p. False) agent iid)) iid
           = Some (cost_usd i + phases)"
    and "total_cost_usd (bot_after (investigate_incident exec (\<lambda>p. False) agent iid))
           = total_cost_usd agent + (cost_usd i + phases)"
  using i ok inv [symmetric] dia [symmetric] rem [symmetric] sum
  by (auto simp: investigate_incident_def investigate_body_def step2_def step3_def finish_def
      send_def invoke_def add_cost_def set_status_def store_def cost_of_def update_conv' Let_def)

subsection \<open>Incident identifiers\<close>

lemma digit_char_inj: "a < 10 \<Longrightarrow> b < 10 \<Longrightarrow> digit_char a = digit_char b \<Longrightarrow> a = b"
proof -
  assume a: "a < 10" and b: "b < 10" and eq: "digit_char a = digit_char b"
  have d: "distinct ''0123456789''" by simp
  have l: "length ''0123456789'' = 10" by simp
  from eq have "''0123456789'' ! a = ''0123456789'' ! b" by (simp only: digit_char_def)
  with d a b l show "a = b" by (simp only: nth_eq_iff_index_eq)
qed

lemma div_mod_10_eq: "(x::nat) div 10 = y div 10 \<Longrightarrow> x mod 10 = y mod 10 \<Longrightarrow> x = y"
  by (metis div_mult_mod_eq)

lemma pad2_inj: "a < 100 \<Longrightarrow> b < 100 \<Longrightarrow> pad2 a = pad2 b \<Longrightarrow> a = b"
proof -
  assume a: "a < 100" and b: "b < 100" and eq: "pad2 a = pad2 b"
  from eq have hi: "digit_char (a div 10) = digit_char (b div 10)"
    and lo: "digit_char (a mod 10) = digit_char (b mod 10)" by (simp_all add: pad2_def)
  from a b have "a div 10 < 10" "b div 10 < 10" by simp_all
  then have "a div 10 = b div 10" using hi by (rule digit_char_inj)
  moreover have "a mod 10 = b mod 10" using lo by (intro digit_char_inj) simp_all
  ultimately show "a = b" by (rule div_mod_10_eq)
qed

lemma pad4_inj: "a < 10000 \<Longrightarrow> b < 10000 \<Longrightarrow> pad4 a = pad4 b \<Longrightarrow> a = b"
proof -
  assume a: "a < 10000" and b: "b < 10000" and eq: "pad4 a = pad4 b"
  from eq have e: "digit_char (a div 1000) = digit_char (b div 1000)"
    "digit_char (a div 100 mod 10) = digit_char (b div 100 mod 10)"
    "digit_char (a div 10 mod 10) = digit_char (b div 10 mod 10)"
    "digit_char (a mod 10) = digit_char (b mod 10)" by (simp_all add: pad4_def)
  from a b have "a div 1000 < 10" "b div 1000 < 10" by simp_all
  then have d3: "a div 1000 = b div 1000" using e(1) by (rule digit_char_inj)
  have m2: "a div 100 mod 10 = b div 100 mod 10" using e(2) by (intro digit_char_inj) simp_all
  have m1: "a div 10 mod 10 = b div 10 mod 10" using e(3) by (intro digit_char_inj) simp_all
  have m0: "a mod 10 = b mod 10" using e(4) by (intro digit_char_inj) simp_all
  have s3: "x div 100 div 10 = x div 1000" and s2: "x div 10 div 10 = x div 100" for x :: nat
    by (simp_all add: div_mult2_eq [symmetric])
  from d3 have "a div 100 div 10 = b div 100 div 10" by (simp only: s3)
  then have d2: "a div 100 = b div 100" using m2 by (rule div_mod_10_eq)
  then have "a div 10 div 10 = b div 10 div 10" by (simp only: s2)
  then have "a div 10 = b div 10" using m1 by (rule div_mod_10_eq)
  then show "a = b" using m0 by (rule div_mod_10_eq)
qed

lemma pad_lengths: "length (pad2 n) = 2" "length (pad4 n) = 4"
  by (simp_all add: pad2_def pad4_def)

lemma strftime_inj:
  assumes "valid_datetime d" "valid_datetime e" "strftime_YmdHMS d = strftime_YmdHMS e"
  shows "same_second d e"
proof -
  from assms(3) have "pad4 (dt_year d) = pad4 (dt_year e)" "pad2 (dt_month d) = pad2 (dt_month e)"
    "pad2 (dt_day d) = pad2 (dt_day e)" "pad2 (dt_hour d) = pad2 (dt_hour e)"
    "pad2 (dt_minute d) = pad2 (dt_minute e)" "pad2 (dt_second d) = pad2 (dt_second e)"
    by (simp_all add: strftime_YmdHMS_def pad_lengths)
  moreover from assms(1,2) have "dt_year d < 10000" "dt_year e < 10000" "dt_month d < 100"
    "dt_month e < 100" "dt_day d < 100" "dt_day e < 100" "dt_hour d < 100" "dt_hour e < 100"
    "dt_minute d < 100" "dt_minute e < 100" "dt_second d < 100" "dt_second e < 100"
    by (simp_all add: valid_datetime_def)
  ultimately show ?thesis
    unfolding same_second_def by (intro conjI pad2_inj pad4_inj)
qed

lemma incident_id_eq_iff:
  assumes "valid_datetime d" "valid_datetime e"
  shows "incident_id_at d = incident_id_at e \<longleftrightarrow> same_second d e"
proof
  assume "incident_id_at d = incident_id_at e"
  then have "strftime_YmdHMS d = strftime_YmdHMS e" by (simp add: incident_id_at_def)
  with assms show "same_second d e" by (rule strftime_inj)
next
  assume "same_second d e"
  then show "incident_id_at d = incident_id_at e"
    by (simp add: same_second_def incident_id_at_def strftime_YmdHMS_def)
qed

text \<open>
  Claim C8, as stated: two alerts accepted within the same second get distinct incident
  identifiers and two entries in the incident table. The identifier is the creation time
  printed to the second, so two alerts 750 milliseconds apart within one second get the
  same identifier, and the second replaces the first in the table.
\<close>

theorem same_second_alerts_share_incident_id:
  "ex_t1 \<noteq> ex_t2 \<and> ex_alert \<noteq> ex_alert2 \<and>
   incident_id_at ex_t1 = ''INC-20250115103045'' \<and>
   incident_id_at ex_t2 = ''INC-20250115103045'' \<and>
   active_incidents (fst (handle_alert ex_t2 ex_t2 ex_alert2 (fst (handle_alert ex_t1 ex_t1 ex_alert ex_bot))))
     = [(''INC-20250115103045'',
         \<lparr>inc_id = ''INC-20250115103045'', alert = ex_alert2, status = ''investigating'',
          started_at = ex_t2, cost_usd = 0\<rparr>)]"
proof -
  have i1: "incident_id_at ex_t1 = ''INC-20250115103045''"
    and i2: "incident_id_at ex_t2 = ''INC-20250115103045''"
    by (simp_all add: incident_id_at_def strftime_YmdHMS_def pad2_def pad4_def digit_char_def
        ex_t1_def ex_t2_def)
  have d: "ex_t1 \<noteq> ex_t2" "ex_alert \<noteq> ex_alert2"
    by (simp_all add: ex_t1_def ex_t2_def ex_alert_def ex_alert2_def)
  have "active_incidents (fst (handle_alert ex_t2 ex_t2 ex_alert2 (fst (handle_alert ex_t1 ex_t1 ex_alert ex_bot))))
     = [(''INC-20250115103045'',
         \<lparr>inc_id = ''INC-20250115103045'', alert = ex_alert2, status = ''investigating'',
          started_at = ex_t2, cost_usd = 0\<rparr>)]"
    by (simp add: handle_alert_def Let_def i1 i2 ex_bot_def)
  with i1 i2 d show ?thesis by blast
qed

subsection \<open>The incident table over a run\<close>

lemma run_agent_append: "run_agent (xs @ ys) agent = run_agent ys (run_agent xs agent)"
  by (simp add: run_agent_def)

lemma run_agent_Cons: "run_agent (x # xs) agent = run_agent xs (do_step agent x)"
  by (simp add: run_agent_def)

lemma alert_times_append: "alert_times (xs @ ys) = alert_times xs @ alert_times ys"
  by (induction xs rule: alert_times.induct) simp_all

lemma entry_alert_handle_alert:
  "entry_alert (fst (handle_alert now now' a agent)) k =
     (if k = incident_id_at now then Some a else entry_alert agent k)"
  by (simp add: entry_alert_def handle_alert_def Let_def update_conv')

lemma handle_alert_id: "fst (snd (handle_alert now now' a agent)) = incident_id_at now"
  by (simp add: handle_alert_def Let_def)

lemma and_then_alert:
  assumes "alert (inc (flow_state fl)) = a"
      and "\<And>s. alert (inc s) = a \<Longrightarrow> alert (inc (flow_state (f s))) = a"
  shows "alert (inc (flow_state (and_then fl f))) = a"
  using assms by (cases fl) simp_all

lemma send_alert: "alert (inc (flow_state (send raises p s))) = alert (inc s)"
  by (simp add: send_def)

lemma step3_alert:
  "alert (inc (flow_state (step3 exec raises cfg investigation diagnostics s))) = alert (inc s)"
  unfolding step3_def Let_def
  by (auto intro!: and_then_alert simp: send_alert add_cost_def invoke_def set_status_def)

lemma step2_alert:
  "alert (inc (flow_state (step2 exec raises cfg investigation s))) = alert (inc s)"
  unfolding step2_def Let_def
  by (auto intro!: and_then_alert simp: send_alert step3_alert add_cost_def invoke_def)

lemma finish_alert: "alert (inc (flow_state (finish raises s))) = alert (inc s)"
  by (simp add: finish_def send_alert)

lemma investigate_body_alert:
  "alert (inc (flow_state (investigate_body exec raises cfg s))) = alert (inc s)"
  unfolding investigate_body_def Let_def
  by (auto intro!: and_then_alert
           simp: send_alert step2_alert finish_alert add_cost_def invoke_def)

lemma entry_alert_store:
  assumes "map_of (active_incidents agent) iid = Some i" and "alert (inc s) = alert i"
  shows "entry_alert (bot_after (store agent iid esc s)) k = entry_alert agent k"
  using assms by (simp add: entry_alert_def store_def update_conv')

lemma entry_alert_investigate:
  "entry_alert (bot_after (investigate_incident exec raises agent iid)) k = entry_alert agent k"
proof (cases "map_of (active_incidents agent) iid")
  case None
  then show ?thesis by (simp add: investigate_incident_def)
next
  case (Some i)
  define s0 where "s0 = \<lparr>inc = i, bot_total = total_cost_usd agent, trace = []\<rparr>"
  define fl where "fl = investigate_body exec raises (config agent) s0"
  have a: "alert (inc (flow_state fl)) = alert i"
    unfolding fl_def using investigate_body_alert [of exec raises "config agent" s0]
    by (simp add: s0_def)
  have r: "investigate_incident exec raises agent iid =
      (case fl of
         Continue s \<Rightarrow> store agent iid False s
       | Return s \<Rightarrow> store agent iid False s
       | Raise s \<Rightarrow>
           (case send raises SendInvestigationError s of
              Continue s' \<Rightarrow> store agent iid False (set_status ''error'' s')
            | Return s' \<Rightarrow> store agent iid False s'
            | Raise s' \<Rightarrow> store agent iid True s'))"
    by (simp add: investigate_incident_def Some fl_def s0_def)
  show ?thesis
  proof (cases fl)
    case (Continue s)
    with a r show ?thesis by (simp add: entry_alert_store [OF Some])
  next
    case (Return s)
    with a r show ?thesis by (simp add: entry_alert_store [OF Some])
  next
    case (Raise s)
    with a r show ?thesis
      by (simp add: send_def entry_alert_store [OF Some] set_status_def)
  qed
qed

lemma entry_alert_do_step:
  "entry_alert (do_step agent st) k =
     (case st of
        Alert now now' a \<Rightarrow> if k = incident_id_at now then Some a else entry_alert agent k
      | Investigate exec raises iid \<Rightarrow> entry_alert agent k)"
  by (cases st) (simp_all add: entry_alert_handle_alert entry_alert_investigate)

lemma no_later_alert_keeps_entry:
  "\<forall>u \<in> set (alert_times steps). incident_id_at u \<noteq> k \<Longrightarrow>
     entry_alert (run_agent steps agent) k = entry_alert agent k"
proof (induction steps arbitrary: agent)
  case Nil
  then show ?case by (simp add: run_agent_def)
next
  case (Cons st steps)
  show ?case
  proof (cases st)
    case (Alert now now' a)
    with Cons.prems have ne: "incident_id_at now \<noteq> k"
      and rest: "\<forall>u \<in> set (alert_times steps). incident_id_at u \<noteq> k" by simp_all
    from Cons.IH [OF rest] have
      "entry_alert (run_agent steps (do_step agent st)) k = entry_alert (do_step agent st) k" .
    with Alert ne show ?thesis by (auto simp: run_agent_Cons entry_alert_handle_alert)
  next
    case (Investigate exec raises iid)
    with Cons.prems have rest: "\<forall>u \<in> set (alert_times steps). incident_id_at u \<noteq> k" by simp
    from Cons.IH [OF rest] have
      "entry_alert (run_agent steps (do_step agent st)) k = entry_alert (do_step agent st) k" .
    with Investigate show ?thesis by (simp add: run_agent_Cons entry_alert_investigate)
  qed
qed

lemma alert_then_no_later:
  assumes "\<forall>u \<in> set (alert_times later). incident_id_at u \<noteq> incident_id_at now"
  shows "entry_alert (run_agent (pre @ [Alert now now' a] @ later) agent) (incident_id_at now) = Some a"
proof -
  have "run_agent (pre @ [Alert now now' a] @ later) agent =
      run_agent later (fst (handle_alert now now' a (run_agent pre agent)))"
    by (simp add: run_agent_append run_agent_Cons)
  then show ?thesis
    using no_later_alert_keeps_entry [OF assms] by (simp add: entry_alert_handle_alert)
qed

text \<open>
  Claim C8, amended: in any run of the agent, two incidents created in different seconds
  (of years 1000 to 9999) get distinct identifiers, and each of the two has its own entry
  in the incident table, holding its alert, provided no later alert of the run is accepted
  within the same second as it.
\<close>

theorem incident_ids_distinct_across_seconds:
  assumes valid: "\<forall>u \<in> set (alert_times (pre @ [Alert t1 t1' a1] @ mid @ [Alert t2 t2' a2] @ post)).
                    valid_datetime u"
      and diff: "\<not> same_second t1 t2"
      and final: "final = run_agent (pre @ [Alert t1 t1' a1] @ mid @ [Alert t2 t2' a2] @ post) agent"
  shows "incident_id_at t1 \<noteq> incident_id_at t2 \<and>
         ((\<forall>u \<in> set (alert_times (mid @ post)). \<not> same_second u t1) \<longrightarrow>
            entry_alert final (incident_id_at t1) = Some a1) \<and>
         ((\<forall>u \<in> set (alert_times post). \<not> same_second u t2) \<longrightarrow>
            entry_alert final (incident_id_at t2) = Some a2)"
proof -
  from valid have v1: "valid_datetime t1" and v2: "valid_datetime t2"
    and vm: "\<forall>u \<in> set (alert_times mid). valid_datetime u"
    and vp: "\<forall>u \<in> set (alert_times post). valid_datetime u"
    by (simp_all add: alert_times_append)
  from v1 v2 diff have ne: "incident_id_at t1 \<noteq> incident_id_at t2"
    by (simp add: incident_id_eq_iff)
  have e1: "entry_alert final (incident_id_at t1) = Some a1"
    if "\<forall>u \<in> set (alert_times (mid @ post)). \<not> same_second u t1"
  proof -
    from that vm vp v1 have "\<forall>u \<in> set (alert_times (mid @ post)). incident_id_at u \<noteq> incident_id_at t1"
      by (auto simp: alert_times_append incident_id_eq_iff)
    with ne have "\<forall>u \<in> set (alert_times (mid @ [Alert t2 t2' a2] @ post)).
        incident_id_at u \<noteq> incident_id_at t1"
      by (auto simp: alert_times_append)
    from alert_then_no_later [OF this] show ?thesis unfolding final .
  qed
  have e2: "entry_alert final (incident_id_at t2) = Some a2"
    if "\<forall>u \<in> set (alert_times post). \<not> same_second u t2"
  proof -
    from that vp v2 have "\<forall>u \<in> set (alert_times post). incident_id_at u \<noteq> incident_id_at t2"
      by (auto simp: incident_id_eq_iff)
    from alert_then_no_later [OF this, of "pre @ [Alert t1 t1' a1] @ mid" t2' a2 agent]
    show ?thesis unfolding final by simp
  qed
  from ne e1 e2 show ?thesis by blast
qed

theorem incident_ids_distinct_across_seconds_witness:
  "valid_datetime ex_t1 \<and> valid_datetime ex_t2 \<and> valid_datetime ex_t3 \<and> valid_datetime ex_t4 \<and>
   \<not> same_second ex_t2 ex_t3 \<and> \<not> same_second ex_t4 ex_t2 \<and> \<not> same_second ex_t4 ex_t3 \<and>
   alert_times ex_steps = [ex_t1, ex_t2, ex_t3, ex_t4] \<and>
   incident_id_at ex_t2 = ''INC-20250115103045'' \<and>
   incident_id_at ex_t3 = ''INC-20250115103046'' \<and>
   entry_alert (run_agent ex_steps ex_bot) ''INC-20250115103045'' = Some ex_alert2 \<and>
   entry_alert (run_agent ex_steps ex_bot) ''INC-20250115103046'' = Some ex_alert"
proof -
  have v: "valid_datetime ex_t1" "valid_datetime ex_t2" "valid_datetime ex_t3" "valid_datetime ex_t4"
    and n: "\<not> same_second ex_t2 ex_t3" "\<not> same_second ex_t4 ex_t2" "\<not> same_second ex_t4 ex_t3"
    by (simp_all add: valid_datetime_def same_second_def ex_t1_def ex_t2_def ex_t3_def ex_t4_def)
  have i2: "incident_id_at ex_t2 = ''INC-20250115103045''"
    and i3: "incident_id_at ex_t3 = ''INC-20250115103046''"
    by (simp_all add: incident_id_at_def strftime_YmdHMS_def pad2_def pad4_def digit_char_def
        ex_t2_def ex_t3_def)
  have st: "ex_steps = [Alert ex_t1 ex_t1 ex_alert] @ [Alert ex_t2 ex_t2 ex_alert2]
      @ [Investigate ex_exec_fail (\<lambda>p. False) ''INC-20250115103045'']
      @ [Alert ex_t3 ex_t3 ex_alert] @ [Alert ex_t4 ex_t4 ex_alert2]"
    by (simp add: ex_steps_def)
  have at: "alert_times ex_steps = [ex_t1, ex_t2, ex_t3, ex_t4]" by (simp add: ex_steps_def)
  have val: "\<forall>u \<in> set (alert_times ([Alert ex_t1 ex_t1 ex_alert] @ [Alert ex_t2 ex_t2 ex_alert2]
      @ [Investigate ex_exec_fail (\<lambda>p. False) ''INC-20250115103045'']
      @ [Alert ex_t3 ex_t3 ex_alert] @ [Alert ex_t4 ex_t4 ex_alert2])). valid_datetime u"
    using v by simp
  have fin: "run_agent ex_steps ex_bot = run_agent ([Alert ex_t1 ex_t1 ex_alert]
      @ [Alert ex_t2 ex_t2 ex_alert2]
      @ [Investigate ex_exec_fail (\<lambda>p. False) ''INC-20250115103045'']
      @ [Alert ex_t3 ex_t3 ex_alert] @ [Alert ex_t4 ex_t4 ex_alert2]) ex_bot"
    by (simp only: st [symmetric])
  from incident_ids_distinct_across_seconds [OF val n(1) fin] n(2,3)
  have "entry_alert (run_agent ex_steps ex_bot) (incident_id_at ex_t2) = Some ex_alert2"
    and "entry_alert (run_agent ex_steps ex_bot) (incident_id_at ex_t3) = Some ex_alert"
    by simp_all
  with v n at i2 i3 show ?thesis by simp
qed

end
